theory Spec2Isabelle
  imports Main "HOL-Library.Word"
begin

unbundle bit_operations_syntax

section \<open>The IP4 board driver (src/mame/sgi/ip4.cpp)\<close>

text \<open>
  A shallow embedding of the driver class \<open>ip4_state\<close>: its registers, the handlers of
  its address map, the interrupt and DMA callbacks, the Configuration Register and the
  parity tap handlers. Every member function becomes a function from the state to the
  new state; a handler that indexes the parity bitmap returns a \<open>fault\<close> where the C++
  would dereference a null pointer or index out of the array.
\<close>

subsection \<open>Machine words and the enumerations of the class\<close>

type_synonym u8 = "8 word"
type_synonym u16 = "16 word"
type_synonym u32 = "32 word"

text \<open>\<open>enum cpucfg_mask : u16\<close>\<close>

abbreviation CPUCFG_LEDS :: u16 where "CPUCFG_LEDS \<equiv> 0x001f"
abbreviation CPUCFG_S01 :: u16 where "CPUCFG_S01 \<equiv> 0x0040"
abbreviation CPUCFG_S23 :: u16 where "CPUCFG_S23 \<equiv> 0x0080"
abbreviation CPUCFG_MAIL :: u16 where "CPUCFG_MAIL \<equiv> 0x0100"
abbreviation CPUCFG_SIN :: u16 where "CPUCFG_SIN \<equiv> 0x0200"
abbreviation CPUCFG_RPAR :: u16 where "CPUCFG_RPAR \<equiv> 0x0400"
abbreviation CPUCFG_SLA :: u16 where "CPUCFG_SLA \<equiv> 0x0800"
abbreviation CPUCFG_ARB :: u16 where "CPUCFG_ARB \<equiv> 0x1000"
abbreviation CPUCFG_BAD :: u16 where "CPUCFG_BAD \<equiv> 0x2000"
abbreviation CPUCFG_DOG :: u16 where "CPUCFG_DOG \<equiv> 0x4000"
abbreviation CPUCFG_AUX2 :: u16 where "CPUCFG_AUX2 \<equiv> 0x8000"

text \<open>
  \<open>enum parerr_mask : u8\<close>. The constants are used in \<open>int\<close> and \<open>unsigned\<close>
  expressions after integral promotion, so they are given at 32 bits.
\<close>

abbreviation PAR_LAN :: u32 where "PAR_LAN \<equiv> 0x01"
abbreviation PAR_DMA :: u32 where "PAR_DMA \<equiv> 0x02"
abbreviation PAR_CPU :: u32 where "PAR_CPU \<equiv> 0x04"
abbreviation PAR_VME :: u32 where "PAR_VME \<equiv> 0x08"
abbreviation PAR_B3 :: u32 where "PAR_B3 \<equiv> 0x10"
abbreviation PAR_B2 :: u32 where "PAR_B2 \<equiv> 0x20"
abbreviation PAR_B1 :: u32 where "PAR_B1 \<equiv> 0x40"
abbreviation PAR_B0 :: u32 where "PAR_B0 \<equiv> 0x80"
abbreviation PAR_ALL :: u32 where "PAR_ALL \<equiv> 0xf0"

text \<open>
  The compound assignments \<open>x |= e\<close> and \<open>x &= e\<close> on a \<open>u8\<close> member with a 32-bit
  right-hand side: the member is promoted, the operation is done at 32 bits and the
  result is converted back to eight bits.
\<close>

definition or_assign_u8 :: "u8 \<Rightarrow> u32 \<Rightarrow> u8" where
  "or_assign_u8 x e = ucast ((ucast x :: u32) OR e)"

definition and_assign_u8 :: "u8 \<Rightarrow> u32 \<Rightarrow> u8" where
  "and_assign_u8 x e = ucast ((ucast x :: u32) AND e)"

subsection \<open>The devices the driver calls\<close>

text \<open>
  The CPU, the SCSI controller, the address space and the machine are other objects; the
  model keeps, for each, the list of calls the driver has made on it. What such a call
  returns (the byte of \<open>dma_r\<close>, the byte of \<open>read_byte\<close>) is an argument of the
  function that makes the call.
\<close>

datatype input_line = INPUT_LINE_IRQ1 | INPUT_LINE_IRQ2 | INPUT_LINE_IRQ4

datatype cpu_call = Set_input_line input_line bool | Berr_w bool

datatype scsi_call = Dma_r | Dma_w u8 | Reset_w bool

datatype space_call = Read_byte u32 | Write_byte u32 u8

subsection \<open>The state of the driver\<close>

text \<open>
  \<open>m_parity\<close> is the \<open>std::unique_ptr<u8[]>\<close>: \<open>None\<close> is the null pointer, \<open>Some bm\<close>
  an array of \<open>parity_size\<close> bytes, \<open>bm i\<close> the byte at index \<open>i\<close>.
  \<open>m_parity_mph\<close> tells whether the pass-through handler (the tap) is installed.
  \<open>m_cpu\<close>, \<open>m_scsi\<close> and \<open>space0\<close> are the calls made on the CPU, on the SCSI
  controller and on \<open>m_cpu->space(0)\<close>; \<open>soft_resets\<close> counts the calls of
  \<open>machine().schedule_soft_reset()\<close>.
\<close>

record ip4_state =
  m_cpucfg :: u16
  m_dmalo :: u16
  m_dmahi :: u16
  m_lio_isr :: u8
  m_parerr :: u8
  m_erradr :: u32
  m_parity :: "(nat \<Rightarrow> u8) option"
  m_parity_mph :: bool
  m_parity_bad :: u32
  m_lio_int :: bool
  m_leds :: "bool list"
  m_cpu :: "cpu_call list"
  m_scsi :: "scsi_call list"
  space0 :: "space_call list"
  soft_resets :: nat

text \<open>
  Undefined behaviour of the C++ is a value: a dereference of the null \<open>m_parity\<close>, or
  an index beyond the allocated array.
\<close>

datatype fault = Null_parity | Parity_index nat

definition bindE :: "fault + 'a \<Rightarrow> ('a \<Rightarrow> fault + 'b) \<Rightarrow> fault + 'b" where
  "bindE m f = (case m of Inl e \<Rightarrow> Inl e | Inr x \<Rightarrow> f x)"

text \<open>A \<open>for\<close> loop over the given values of its counter, stopping at the first fault.\<close>

fun for_each :: "nat list \<Rightarrow> (nat \<Rightarrow> 'a \<Rightarrow> fault + 'a) \<Rightarrow> 'a \<Rightarrow> fault + 'a" where
  "for_each [] body x = Inr x"
| "for_each (i # is) body x = bindE (body i x) (for_each is body)"

subsection \<open>Start and reset\<close>

text \<open>
  \<open>machine_start\<close> assigns the registers below and installs the RTC tap (another device,
  not modelled); the \<open>unique_ptr\<close> and the handler are default-constructed members.
\<close>

definition machine_start :: "ip4_state \<Rightarrow> ip4_state" where
  "machine_start s = s\<lparr>m_cpucfg := 0, m_lio_isr := 0xff, m_lio_int := False,
     m_dmalo := 0, m_dmahi := 0, m_parity_bad := 0\<rparr>"

definition machine_reset :: "ip4_state \<Rightarrow> ip4_state" where
  "machine_reset s = s\<lparr>m_erradr := 0, m_parerr := 0\<rparr>"

subsection \<open>Interrupt sources\<close>

definition lio_interrupt :: "nat \<Rightarrow> u32 \<Rightarrow> ip4_state \<Rightarrow> ip4_state" where
  "lio_interrupt number state s =
     (let s1 = (if state \<noteq> 0
                then s\<lparr>m_lio_isr := or_assign_u8 (m_lio_isr s) (push_bit number 1)\<rparr>
                else s\<lparr>m_lio_isr := and_assign_u8 (m_lio_isr s) (NOT (push_bit number 1))\<rparr>);
          lio_int = (m_lio_isr s1 = 0)
      in if m_lio_int s1 \<noteq> lio_int
         then s1\<lparr>m_lio_int := lio_int,
                 m_cpu := m_cpu s1 @ [Set_input_line INPUT_LINE_IRQ1 lio_int]\<rparr>
         else s1)"

subsection \<open>The Configuration Register\<close>

definition cpucfg_r :: "ip4_state \<Rightarrow> u16" where
  "cpucfg_r s = m_cpucfg s"

text \<open>\<open>unsigned const ram_size = 8\<close>; the bitmap has \<open>ram_size << (20 - 3)\<close> bytes.\<close>

definition ram_size :: nat where
  "ram_size = 8"

definition parity_size :: nat where
  "parity_size = push_bit (20 - 3) ram_size"

definition cpucfg_w :: "u16 \<Rightarrow> ip4_state \<Rightarrow> ip4_state" where
  "cpucfg_w data s =
     (let s1 = s\<lparr>m_leds := map (\<lambda>i. bit data i) [0..<5]\<rparr>;
          s2 = (if bit data 9 then s1\<lparr>soft_resets := soft_resets s1 + 1\<rparr> else s1);
          s3 = (if (m_cpucfg s2 XOR data) AND CPUCFG_BAD \<noteq> 0
                then (if data AND CPUCFG_BAD \<noteq> 0 \<and> m_parity s2 = None
                      then s2\<lparr>m_parity := Some (\<lambda>i. 0), m_parity_mph := True\<rparr>
                      else s2)
                else s2)
      in s3\<lparr>m_cpucfg := data\<rparr>)"

subsection \<open>The parity tap handlers\<close>

text \<open>\<open>m_parity[i]\<close> as an rvalue and as the target of an assignment.\<close>

definition parity_load :: "nat \<Rightarrow> ip4_state \<Rightarrow> fault + u8" where
  "parity_load i s =
     (case m_parity s of
        None \<Rightarrow> Inl Null_parity
      | Some bm \<Rightarrow> if i < parity_size then Inr (bm i) else Inl (Parity_index i))"

definition parity_store :: "nat \<Rightarrow> u8 \<Rightarrow> ip4_state \<Rightarrow> fault + ip4_state" where
  "parity_store i v s =
     (case m_parity s of
        None \<Rightarrow> Inl Null_parity
      | Some bm \<Rightarrow> if i < parity_size then Inr (s\<lparr>m_parity := Some (bm(i := v))\<rparr>)
                   else Inl (Parity_index i))"

text \<open>\<open>BIT(mem_mask, 24 - byte * 8, 8)\<close> as a condition, and \<open>BIT(offset, 2) * 4 + byte\<close>.\<close>

definition lane_enabled :: "u32 \<Rightarrow> nat \<Rightarrow> bool" where
  "lane_enabled mem_mask byte = (take_bit 8 (drop_bit (24 - byte * 8) mem_mask) \<noteq> 0)"

definition parity_bit :: "u32 \<Rightarrow> nat \<Rightarrow> nat" where
  "parity_bit offset byte = (if bit offset 2 then 1 else 0) * 4 + byte"

definition parity_index :: "u32 \<Rightarrow> nat" where
  "parity_index offset = unat (drop_bit 3 offset)"

text \<open>
  The body of the loop of \<open>parity_r\<close>, on the state and the local \<open>error\<close>. The \<open>&&\<close>
  does not index the bitmap when the lane is not enabled.
\<close>

definition parity_r_byte :: "u32 \<Rightarrow> u32 \<Rightarrow> nat \<Rightarrow> ip4_state \<times> bool \<Rightarrow> fault + ip4_state \<times> bool" where
  "parity_r_byte offset mem_mask byte se =
     (if lane_enabled mem_mask byte
      then bindE (parity_load (parity_index offset) (fst se)) (\<lambda>p.
             if bit p (parity_bit offset byte)
             then Inr ((fst se)\<lparr>m_parerr :=
                         or_assign_u8 (m_parerr (fst se)) (drop_bit byte PAR_B0 OR PAR_CPU)\<rparr>, True)
             else Inr se)
      else Inr se)"

definition parity_r :: "u32 \<Rightarrow> u32 \<Rightarrow> u32 \<Rightarrow> ip4_state \<Rightarrow> fault + ip4_state" where
  "parity_r offset data mem_mask s =
     (if m_cpucfg s AND CPUCFG_RPAR \<noteq> 0
      then bindE (for_each [0..<4] (parity_r_byte offset mem_mask) (s, False)) (\<lambda>se.
             if snd se
             then Inr ((fst se)\<lparr>m_erradr := offset, m_cpu := m_cpu (fst se) @ [Berr_w True]\<rparr>)
             else Inr (fst se))
      else Inr s)"

text \<open>The bodies of the two loops of \<open>parity_w\<close>.\<close>

definition parity_w_set :: "u32 \<Rightarrow> u32 \<Rightarrow> nat \<Rightarrow> ip4_state \<Rightarrow> fault + ip4_state" where
  "parity_w_set offset mem_mask byte s =
     (if lane_enabled mem_mask byte
      then bindE (parity_load (parity_index offset) s) (\<lambda>p.
             if \<not> bit p (parity_bit offset byte)
             then bindE (parity_store (parity_index offset)
                           (or_assign_u8 p (push_bit (parity_bit offset byte) 1)) s) (\<lambda>s1.
                    Inr (s1\<lparr>m_parity_bad := m_parity_bad s1 + 1\<rparr>))
             else Inr s)
      else Inr s)"

definition parity_w_clr :: "u32 \<Rightarrow> u32 \<Rightarrow> nat \<Rightarrow> ip4_state \<Rightarrow> fault + ip4_state" where
  "parity_w_clr offset mem_mask byte s =
     (if lane_enabled mem_mask byte
      then bindE (parity_load (parity_index offset) s) (\<lambda>p.
             if bit p (parity_bit offset byte)
             then bindE (parity_store (parity_index offset)
                           (and_assign_u8 p (NOT (push_bit (parity_bit offset byte) 1))) s) (\<lambda>s1.
                    Inr (s1\<lparr>m_parity_bad := m_parity_bad s1 - 1\<rparr>))
             else Inr s)
      else Inr s)"

definition parity_w :: "u32 \<Rightarrow> u32 \<Rightarrow> u32 \<Rightarrow> ip4_state \<Rightarrow> fault + ip4_state" where
  "parity_w offset data mem_mask s =
     (if m_cpucfg s AND CPUCFG_BAD \<noteq> 0
      then for_each [0..<4] (parity_w_set offset mem_mask) s
      else bindE (for_each [0..<4] (parity_w_clr offset mem_mask) s) (\<lambda>s1.
             if m_parity_bad s1 = 0
             then Inr (s1\<lparr>m_parity_mph := False, m_parity := None\<rparr>)
             else Inr s1))"

subsection \<open>The address space and its tap\<close>

text \<open>
  Modelled from the spec: the address space \<open>m_cpu->space(0)\<close> is an object of the
  emulation framework, whose code is not among the sources. The spec says of it that the
  tap is "a lazily-activated shadow structure that intercepts every memory access in a
  region", checked "on every tap-intercepted read" and maintained "on every intercepted
  write": while the handler installed by \<open>cpucfg_w\<close> is in place, an access of the space
  at an address of the tapped range \<open>0 .. (ram_size << 20) - 1\<close> runs \<open>parity_r\<close> or
  \<open>parity_w\<close> with the address of the 32-bit word and the mask of the lanes accessed;
  no other access runs them. The value a read returns is the caller's argument.
\<close>

definition tap_range :: "u32 \<Rightarrow> bool" where
  "tap_range offset = (unat offset \<le> push_bit 20 ram_size - 1)"

definition tap_r :: "u32 \<Rightarrow> u32 \<Rightarrow> u32 \<Rightarrow> ip4_state \<Rightarrow> fault + ip4_state" where
  "tap_r offset data mem_mask s =
     (if m_parity_mph s \<and> tap_range offset then parity_r offset data mem_mask s else Inr s)"

definition tap_w :: "u32 \<Rightarrow> u32 \<Rightarrow> u32 \<Rightarrow> ip4_state \<Rightarrow> fault + ip4_state" where
  "tap_w offset data mem_mask s =
     (if m_parity_mph s \<and> tap_range offset then parity_w offset data mem_mask s else Inr s)"

text \<open>
  Modelled from the spec: a byte access of the big-endian 32-bit space is an access of
  the word that holds the byte, with the mask of the byte's lane (lane 0, the most
  significant byte, is the byte at the word's own address, as \<open>24 - byte * 8\<close> in the
  handlers has it).
\<close>

definition byte_shift :: "u32 \<Rightarrow> nat" where
  "byte_shift addr = 8 * (3 - unat (addr AND 3))"

definition space_read_byte :: "u32 \<Rightarrow> u8 \<Rightarrow> ip4_state \<Rightarrow> fault + ip4_state" where
  "space_read_byte addr v s =
     tap_r (addr AND NOT 3) (push_bit (byte_shift addr) (ucast v)) (push_bit (byte_shift addr) 0xff)
       (s\<lparr>space0 := space0 s @ [Read_byte addr]\<rparr>)"

definition space_write_byte :: "u32 \<Rightarrow> u8 \<Rightarrow> ip4_state \<Rightarrow> fault + ip4_state" where
  "space_write_byte addr v s =
     tap_w (addr AND NOT 3) (push_bit (byte_shift addr) (ucast v)) (push_bit (byte_shift addr) 0xff)
       (s\<lparr>space0 := space0 s @ [Write_byte addr v]\<rparr>)"

subsection \<open>The DMA step\<close>

text \<open>
  \<open>dma_in\<close> is the byte \<open>m_scsi->dma_r()\<close> returns and \<open>mem_in\<close> the byte
  \<open>space(0).read_byte(addr)\<close> returns, when the call is made.
\<close>

definition dma_addr :: "ip4_state \<Rightarrow> u32" where
  "dma_addr s = push_bit 12 (ucast (m_dmahi s)) OR ucast (m_dmalo s AND 0x0fff)"

definition scsi_drq :: "u32 \<Rightarrow> u8 \<Rightarrow> u8 \<Rightarrow> ip4_state \<Rightarrow> fault + ip4_state" where
  "scsi_drq state dma_in mem_in s =
     (if state \<noteq> 0
      then bindE (if m_dmalo s AND 0x8000 \<noteq> 0
                  then space_write_byte (dma_addr s) dma_in (s\<lparr>m_scsi := m_scsi s @ [Dma_r]\<rparr>)
                  else bindE (space_read_byte (dma_addr s) mem_in s) (\<lambda>s1.
                         Inr (s1\<lparr>m_scsi := m_scsi s1 @ [Dma_w mem_in]\<rparr>))) (\<lambda>s1.
             let s2 = s1\<lparr>m_dmalo := (m_dmalo s1 + 1) AND 0x8fff\<rparr>
             in Inr (if m_dmalo s2 AND 0xfff = 0 then s2\<lparr>m_dmahi := m_dmahi s2 + 1\<rparr> else s2))
      else Inr s)"

subsection \<open>The handlers written in the address map\<close>

definition dmalo_w :: "u16 \<Rightarrow> ip4_state \<Rightarrow> ip4_state" where
  "dmalo_w data s = s\<lparr>m_dmalo := data\<rparr>"

definition dmahi_w :: "u16 \<Rightarrow> ip4_state \<Rightarrow> ip4_state" where
  "dmahi_w data s = s\<lparr>m_dmahi := data\<rparr>"

definition lio_isr_r :: "ip4_state \<Rightarrow> u8" where
  "lio_isr_r s = m_lio_isr s"

definition irq4_clear_r :: "ip4_state \<Rightarrow> u8 \<times> ip4_state" where
  "irq4_clear_r s = (0, s\<lparr>m_cpu := m_cpu s @ [Set_input_line INPUT_LINE_IRQ4 False]\<rparr>)"

definition irq2_clear_r :: "ip4_state \<Rightarrow> u8 \<times> ip4_state" where
  "irq2_clear_r s = (0, s\<lparr>m_cpu := m_cpu s @ [Set_input_line INPUT_LINE_IRQ2 False]\<rparr>)"

definition erradr_r :: "ip4_state \<Rightarrow> u32" where
  "erradr_r s = m_erradr s"

definition scsi_reset_r :: "bool \<Rightarrow> ip4_state \<Rightarrow> u8 \<times> ip4_state" where
  "scsi_reset_r level s = (0, s\<lparr>m_scsi := m_scsi s @ [Reset_w level]\<rparr>)"

text \<open>The window at 0x1faa0000: the read and the write handler have the same body.\<close>

definition parerr_clear_r :: "nat \<Rightarrow> ip4_state \<Rightarrow> u8 \<times> ip4_state" where
  "parerr_clear_r offset s =
     (0, s\<lparr>m_parerr := and_assign_u8 (m_parerr s) (NOT (PAR_ALL OR push_bit offset 1))\<rparr>)"

definition parerr_clear_w :: "nat \<Rightarrow> u8 \<Rightarrow> ip4_state \<Rightarrow> ip4_state" where
  "parerr_clear_w offset data s =
     s\<lparr>m_parerr := and_assign_u8 (m_parerr s) (NOT (PAR_ALL OR push_bit offset 1))\<rparr>"

text \<open>The status read at 0x1faa0004: \<open>m_parerr ^ PAR_ALL\<close>, returned as a \<open>u8\<close>.\<close>

definition parerr_r :: "ip4_state \<Rightarrow> u8" where
  "parerr_r s = ucast ((ucast (m_parerr s) :: u32) XOR PAR_ALL)"

text \<open>The output handlers of the timer, bound in \<open>common\<close>.\<close>

definition pit_out0 :: "u32 \<Rightarrow> ip4_state \<Rightarrow> ip4_state" where
  "pit_out0 state s =
     (if state \<noteq> 0 then s\<lparr>m_cpu := m_cpu s @ [Set_input_line INPUT_LINE_IRQ2 True]\<rparr> else s)"

definition pit_out1 :: "u32 \<Rightarrow> ip4_state \<Rightarrow> ip4_state" where
  "pit_out1 state s =
     (if state \<noteq> 0 then s\<lparr>m_cpu := m_cpu s @ [Set_input_line INPUT_LINE_IRQ4 True]\<rparr> else s)"

subsection \<open>The runs of the driver\<close>

text \<open>
  The driver is passive: the framework calls one of its entry points at a time, each
  running to completion. A \<open>call\<close> is one such entry: an access of the CPU to one of the
  windows of the address map, an access to RAM (which reaches the driver through the
  tap only), a callback of a device, or the reset of the machine.
\<close>

datatype call =
    Cpucfg_r
  | Cpucfg_w u16
  | Dmalo_w u16
  | Dmahi_w u16
  | Lio_isr_r
  | Irq4_clear_r
  | Irq2_clear_r
  | Erradr_r
  | Scsi_reset_r bool
  | Parerr_clear_r nat
  | Parerr_clear_w nat u8
  | Parerr_r
  | Ram_r u32 u32 u32
  | Ram_w u32 u32 u32
  | Lio_interrupt nat u32
  | Scsi_drq u32 u8 u8
  | Pit_out0 u32
  | Pit_out1 u32
  | Machine_reset

fun step :: "call \<Rightarrow> ip4_state \<Rightarrow> fault + ip4_state" where
  "step Cpucfg_r s = Inr s"
| "step (Cpucfg_w data) s = Inr (cpucfg_w data s)"
| "step (Dmalo_w data) s = Inr (dmalo_w data s)"
| "step (Dmahi_w data) s = Inr (dmahi_w data s)"
| "step Lio_isr_r s = Inr s"
| "step Irq4_clear_r s = Inr (snd (irq4_clear_r s))"
| "step Irq2_clear_r s = Inr (snd (irq2_clear_r s))"
| "step Erradr_r s = Inr s"
| "step (Scsi_reset_r level) s = Inr (snd (scsi_reset_r level s))"
| "step (Parerr_clear_r offset) s = Inr (snd (parerr_clear_r offset s))"
| "step (Parerr_clear_w offset data) s = Inr (parerr_clear_w offset data s)"
| "step Parerr_r s = Inr s"
| "step (Ram_r offset data mem_mask) s = tap_r offset data mem_mask s"
| "step (Ram_w offset data mem_mask) s = tap_w offset data mem_mask s"
| "step (Lio_interrupt number state) s = Inr (lio_interrupt number state s)"
| "step (Scsi_drq state dma_in mem_in) s = scsi_drq state dma_in mem_in s"
| "step (Pit_out0 state) s = Inr (pit_out0 state s)"
| "step (Pit_out1 state) s = Inr (pit_out1 state s)"
| "step Machine_reset s = Inr (machine_reset s)"

text \<open>
  The arguments the framework can pass: the acknowledge window has four bytes, and the
  interrupt sources are numbered 0 to 7.
\<close>

fun wf_call :: "call \<Rightarrow> bool" where
  "wf_call (Parerr_clear_r offset) = (offset < 4)"
| "wf_call (Parerr_clear_w offset data) = (offset < 4)"
| "wf_call (Lio_interrupt number state) = (number < 8)"
| "wf_call c = True"

text \<open>
  A run starts from a freshly constructed object (null \<open>m_parity\<close>, no handler), after
  \<open>machine_start\<close> and the first \<open>machine_reset\<close>, and goes on as long as no call has
  undefined behaviour.
\<close>

inductive reachable :: "ip4_state \<Rightarrow> bool" where
  reachable_start:
    "m_parity s0 = None \<Longrightarrow> \<not> m_parity_mph s0 \<Longrightarrow> reachable (machine_reset (machine_start s0))"
| reachable_step:
    "reachable s \<Longrightarrow> wf_call c \<Longrightarrow> step c s = Inr s' \<Longrightarrow> reachable s'"

text \<open>A concrete object before \<open>machine_start\<close>, and the machine after power-on.\<close>

definition constructed :: ip4_state where
  "constructed = \<lparr>m_cpucfg = 0, m_dmalo = 0, m_dmahi = 0, m_lio_isr = 0, m_parerr = 0,
     m_erradr = 0, m_parity = None, m_parity_mph = False, m_parity_bad = 0,
     m_lio_int = False, m_leds = [], m_cpu = [], m_scsi = [], space0 = [],
     soft_resets = 0\<rparr>"

definition power_on :: ip4_state where
  "power_on = machine_reset (machine_start constructed)"

text \<open>The number of bits set in a bitmap of \<open>parity_size\<close> bytes.\<close>

definition bad_set :: "(nat \<Rightarrow> u8) \<Rightarrow> (nat \<times> nat) set" where
  "bad_set bm = {(i, k). i < parity_size \<and> k < 8 \<and> bit (bm i) k}"

definition bad_bits :: "(nat \<Rightarrow> u8) \<Rightarrow> nat" where
  "bad_bits bm = card (bad_set bm)"

subsection \<open>Notions used in the properties\<close>

text \<open>
  Lane \<open>byte\<close> of the access is bad: the lane is enabled by the mask and its shadow bit
  is set in the bitmap \<open>bm\<close> (the condition of the \<open>if\<close> in the loop of \<open>parity_r\<close>).
\<close>

definition lane_bad :: "u32 \<Rightarrow> u32 \<Rightarrow> (nat \<Rightarrow> u8) \<Rightarrow> nat \<Rightarrow> bool" where
  "lane_bad offset mem_mask bm byte =
     (lane_enabled mem_mask byte \<and> bit (bm (parity_index offset)) (parity_bit offset byte))"

text \<open>
  A machine with parity checking enabled and one bad byte: lane 1 of the word at 0x14
  (bit 5 of the bitmap byte 2).
\<close>

definition checked :: ip4_state where
  "checked = power_on\<lparr>m_cpucfg := 0x0400, m_parity := Some ((\<lambda>i. 0)(2 := 0x20)),
     m_parity_mph := True, m_parity_bad := 1\<rparr>"

text \<open>
  The tap is installed exactly when the bitmap is allocated, and the counter
  \<open>m_parity_bad\<close> is the number of bits set in the bitmap (zero when there is none).
\<close>

definition tap_ok :: "ip4_state \<Rightarrow> bool" where
  "tap_ok s = (m_parity_mph s = (m_parity s \<noteq> None))"

definition counter_ok :: "ip4_state \<Rightarrow> bool" where
  "counter_ok s =
     (case m_parity s of
        None \<Rightarrow> m_parity_bad s = 0
      | Some bm \<Rightarrow> unat (m_parity_bad s) = bad_bits bm)"

text \<open>
  The call runs the maintain path: it writes, while the tap is installed, a word or a
  byte of the tapped range, so that the address space calls \<open>parity_w\<close>.
\<close>

fun maintain_write :: "call \<Rightarrow> ip4_state \<Rightarrow> bool" where
  "maintain_write (Ram_w offset data mem_mask) s = (m_parity_mph s \<and> tap_range offset)"
| "maintain_write (Scsi_drq state dma_in mem_in) s =
     (state \<noteq> 0 \<and> m_dmalo s AND 0x8000 \<noteq> 0 \<and> m_parity_mph s \<and>
      tap_range (dma_addr s AND NOT 3))"
| "maintain_write c s = False"

text \<open>
  The machine after power-on, injection enabled and one byte written with bad parity
  (lane 1 of the word at 0x14); then the same machine with injection disabled again.
\<close>

definition injected :: ip4_state where
  "injected = (cpucfg_w 0x2000 power_on)\<lparr>m_parity := Some ((\<lambda>i. 0)(2 := 0x20)),
     m_parity_bad := 1\<rparr>"

definition healing :: ip4_state where
  "healing = cpucfg_w 0 injected"

text \<open>
  The calls that clear parity error flags: the accesses of the acknowledge window at
  0x1faa0000, read or write, and the reset of the machine.
\<close>

fun clears_parerr :: "call \<Rightarrow> bool" where
  "clears_parerr (Parerr_clear_r offset) = True"
| "clears_parerr (Parerr_clear_w offset data) = True"
| "clears_parerr Machine_reset = True"
| "clears_parerr c = False"

text \<open>
  The machine \<open>injected\<close> after parity checking has been enabled too and the bad byte
  has been read: the flags of lane 1 and of the CPU are set.
\<close>

definition faulted :: ip4_state where
  "faulted = (cpucfg_w 0x2400 injected)\<lparr>m_parerr := 0x44, m_erradr := 0x14,
     m_cpu := [Berr_w True]\<rparr>"

section \<open>Properties\<close>

subsection \<open>Compound assignments\<close>

lemma or_assign_u8_eq: "or_assign_u8 x e = x OR ucast e"
  unfolding or_assign_u8_def by (rule bit_word_eqI) (auto simp add: bit_simps)

lemma and_assign_u8_eq: "and_assign_u8 x e = x AND ucast e"
  unfolding and_assign_u8_def by (rule bit_word_eqI) (auto simp add: bit_simps)

subsection \<open>The soft-reset request of the Configuration Register\<close>

text \<open>
  C1 (as amended). A write of the Configuration Register requests a soft reset exactly
  when the written value has bit 9 set, whatever the stored value is: the request is
  made once per such write, and a write with bit 9 clear makes none.
\<close>

theorem cpucfg_w_soft_reset:
  "soft_resets (cpucfg_w data s) = (if bit data 9 then soft_resets s + 1 else soft_resets s)"
  by (simp add: cpucfg_w_def Let_def)

text \<open>
  The claim as first stated (a request only on a 0 to 1 transition of bit 9) fails: after
  power-on, the value 0x0200 written twice requests the reset twice, although the second
  write finds bit 9 already stored.
\<close>

theorem cpucfg_w_soft_reset_counterexample:
  "bit (m_cpucfg (cpucfg_w 0x0200 power_on)) 9 \<and> bit (0x0200 :: u16) 9 \<and>
   soft_resets (cpucfg_w 0x0200 power_on) = 1 \<and>
   soft_resets (cpucfg_w 0x0200 (cpucfg_w 0x0200 power_on)) = 2"
  by (simp add: cpucfg_w_def power_on_def constructed_def machine_start_def
      machine_reset_def Let_def)

theorem cpucfg_w_soft_reset_witness:
  "soft_resets (cpucfg_w 0x0200 power_on) = soft_resets power_on + 1 \<and>
   soft_resets (cpucfg_w 0x2000 power_on) = soft_resets power_on"
  using cpucfg_w_soft_reset [of "0x0200" power_on] cpucfg_w_soft_reset [of "0x2000" power_on]
  by simp

subsection \<open>The interrupt aggregate\<close>

text \<open>
  C2. After every call of the interrupt-source callback, for a source number 0 to 7 and
  any level, the aggregate \<open>m_lio_int\<close> equals (\<open>m_lio_isr\<close> = 0); and the CPU input
  line IRQ1 is driven, once and with the new aggregate, exactly when the new aggregate
  differs from the aggregate propagated before; otherwise no call is made on the CPU.
\<close>

theorem lio_interrupt_aggregate:
  assumes "number < 8"
  shows "m_lio_int (lio_interrupt number state s) = (m_lio_isr (lio_interrupt number state s) = 0) \<and>
         m_cpu (lio_interrupt number state s) = m_cpu s @
           (if m_lio_int s \<noteq> (m_lio_isr (lio_interrupt number state s) = 0)
            then [Set_input_line INPUT_LINE_IRQ1 (m_lio_isr (lio_interrupt number state s) = 0)]
            else [])"
  by (auto simp add: lio_interrupt_def Let_def)

theorem lio_interrupt_aggregate_witness:
  "(7::nat) < 8 \<and>
   m_lio_isr (lio_interrupt 7 0 (power_on\<lparr>m_lio_isr := 0x80\<rparr>)) = 0 \<and>
   m_lio_int (lio_interrupt 7 0 (power_on\<lparr>m_lio_isr := 0x80\<rparr>)) \<and>
   m_cpu (lio_interrupt 7 0 (power_on\<lparr>m_lio_isr := 0x80\<rparr>)) =
     [Set_input_line INPUT_LINE_IRQ1 True]"
proof -
  have isr: "m_lio_isr (lio_interrupt 7 0 (power_on\<lparr>m_lio_isr := 0x80\<rparr>)) = 0"
    by (simp add: lio_interrupt_def Let_def and_assign_u8_eq)
  have before: "\<not> m_lio_int (power_on\<lparr>m_lio_isr := 0x80\<rparr>)"
    and cpu: "m_cpu (power_on\<lparr>m_lio_isr := 0x80\<rparr>) = []"
    by (simp_all add: power_on_def machine_start_def machine_reset_def constructed_def)
  show ?thesis
    using lio_interrupt_aggregate [of 7 0 "power_on\<lparr>m_lio_isr := 0x80\<rparr>"] isr before cpu
    by simp
qed

subsection \<open>The DMA step with the request line inactive\<close>

text \<open>
  C10. When the data-request callback is called with the inactive level (state = 0), the
  whole state is unchanged: the DMA registers keep their values, and no call is made on
  the address space or on the SCSI controller.
\<close>

theorem scsi_drq_inactive:
  "scsi_drq 0 dma_in mem_in s = Inr s"
  by (simp add: scsi_drq_def)

theorem scsi_drq_inactive_witness:
  "scsi_drq 0 0x5a 0xa5 (power_on\<lparr>m_dmalo := 0x8ffe, m_dmahi := 0x0123\<rparr>) =
     Inr (power_on\<lparr>m_dmalo := 0x8ffe, m_dmahi := 0x0123\<rparr>)"
  by (rule scsi_drq_inactive)

subsection \<open>The check path of the parity tap\<close>

lemma all_less_4: "(\<forall>b<4. P b) \<longleftrightarrow> P (0::nat) \<and> P 1 \<and> P 2 \<and> P 3"
  by (auto simp add: less_Suc_eq numeral_eq_Suc)

lemma bindE_Inr [simp]: "bindE (Inr x) f = f x"
  by (simp add: bindE_def)

lemma bindE_Inl [simp]: "bindE (Inl e) f = Inl e"
  by (simp add: bindE_def)

lemma upt_0_4: "[0..<4] = [0, 1, 2, 3]"
  by (simp add: upt_rec)

lemma parity_size_eq: "parity_size = 1048576"
  by (simp add: parity_size_def ram_size_def push_bit_eq_mult)

lemma parity_index_tap_range: "tap_range offset \<Longrightarrow> parity_index offset < parity_size"
  by (simp add: tap_range_def parity_index_def parity_size_eq ram_size_def push_bit_eq_mult
      drop_bit_eq_div unat_div)

lemma parity_load_Some:
  "m_parity s = Some bm \<Longrightarrow> i < parity_size \<Longrightarrow> parity_load i s = Inr (bm i)"
  by (simp add: parity_load_def)

lemma parity_store_Some:
  "m_parity s = Some bm \<Longrightarrow> i < parity_size \<Longrightarrow>
   parity_store i v s = Inr (s\<lparr>m_parity := Some (bm(i := v))\<rparr>)"
  by (simp add: parity_store_def)

lemma lane_flag_bits:
  assumes "byte < 4"
  shows "bit (or_assign_u8 x (drop_bit byte PAR_B0 OR PAR_CPU)) (7 - byte)"
    and "bit (or_assign_u8 x (drop_bit byte PAR_B0 OR PAR_CPU)) 2"
    and "bit x n \<Longrightarrow> bit (or_assign_u8 x (drop_bit byte PAR_B0 OR PAR_CPU)) n"
proof -
  have "byte = 0 \<or> byte = 1 \<or> byte = 2 \<or> byte = 3" using assms by arith
  then show "bit (or_assign_u8 x (drop_bit byte PAR_B0 OR PAR_CPU)) (7 - byte)"
    and "bit (or_assign_u8 x (drop_bit byte PAR_B0 OR PAR_CPU)) 2"
    by (auto simp add: or_assign_u8_eq bit_or_iff)
  show "bit x n \<Longrightarrow> bit (or_assign_u8 x (drop_bit byte PAR_B0 OR PAR_CPU)) n"
    by (simp add: or_assign_u8_eq bit_or_iff)
qed

lemma parity_r_byte_Some:
  assumes "m_parity s = Some bm" and "parity_index offset < parity_size"
  shows "parity_r_byte offset mem_mask byte (s, e) =
           (if lane_bad offset mem_mask bm byte
            then Inr (s\<lparr>m_parerr := or_assign_u8 (m_parerr s) (drop_bit byte PAR_B0 OR PAR_CPU)\<rparr>, True)
            else Inr (s, e))"
  using assms by (simp add: parity_r_byte_def lane_bad_def parity_load_Some)

lemma parity_r_loop:
  assumes "m_parity s = Some bm" and "parity_index offset < parity_size"
    and "\<forall>b\<in>set bs. b < 4"
  shows "\<exists>p. for_each bs (parity_r_byte offset mem_mask) (s, e) =
               Inr (s\<lparr>m_parerr := p\<rparr>, e \<or> (\<exists>b\<in>set bs. lane_bad offset mem_mask bm b)) \<and>
             (\<forall>b\<in>set bs. lane_bad offset mem_mask bm b \<longrightarrow> bit p (7 - b) \<and> bit p 2) \<and>
             (\<forall>n. bit (m_parerr s) n \<longrightarrow> bit p n) \<and>
             ((\<forall>b\<in>set bs. \<not> lane_bad offset mem_mask bm b) \<longrightarrow> p = m_parerr s)"
  using assms
proof (induction bs arbitrary: s e)
  case Nil
  then show ?case by simp
next
  case (Cons b bs)
  show ?case
  proof (cases "lane_bad offset mem_mask bm b")
    case False
    from Cons.IH [of s e] Cons.prems obtain p where
      p: "for_each bs (parity_r_byte offset mem_mask) (s, e) =
            Inr (s\<lparr>m_parerr := p\<rparr>, e \<or> (\<exists>b\<in>set bs. lane_bad offset mem_mask bm b))"
        "\<forall>b\<in>set bs. lane_bad offset mem_mask bm b \<longrightarrow> bit p (7 - b) \<and> bit p 2"
        "\<forall>n. bit (m_parerr s) n \<longrightarrow> bit p n"
        "(\<forall>b\<in>set bs. \<not> lane_bad offset mem_mask bm b) \<longrightarrow> p = m_parerr s"
      by auto
    show ?thesis
      apply (rule exI [of _ p])
      using False p Cons.prems by (simp add: parity_r_byte_Some)
  next
    case True
    let ?s1 = "s\<lparr>m_parerr := or_assign_u8 (m_parerr s) (drop_bit b PAR_B0 OR PAR_CPU)\<rparr>"
    have b: "b < 4" using Cons.prems by simp
    from Cons.IH [of ?s1 True] Cons.prems obtain p where
      p: "for_each bs (parity_r_byte offset mem_mask) (?s1, True) =
            Inr (?s1\<lparr>m_parerr := p\<rparr>, True \<or> (\<exists>b\<in>set bs. lane_bad offset mem_mask bm b))"
        "\<forall>b\<in>set bs. lane_bad offset mem_mask bm b \<longrightarrow> bit p (7 - b) \<and> bit p 2"
        "\<forall>n. bit (m_parerr ?s1) n \<longrightarrow> bit p n"
      by auto
    show ?thesis
      apply (rule exI [of _ p])
      using True p Cons.prems lane_flag_bits [OF b, of "m_parerr s"]
      by (simp add: parity_r_byte_Some)
  qed
qed


lemma parity_r_result:
  assumes "m_parity s = Some bm" and "parity_index offset < parity_size"
  shows "\<exists>p. parity_r offset data mem_mask s =
               Inr (if m_cpucfg s AND CPUCFG_RPAR \<noteq> 0 \<and> (\<exists>b<4. lane_bad offset mem_mask bm b)
                    then s\<lparr>m_parerr := p, m_erradr := offset, m_cpu := m_cpu s @ [Berr_w True]\<rparr>
                    else s) \<and>
             (\<forall>b<4. lane_bad offset mem_mask bm b \<longrightarrow> bit p (7 - b) \<and> bit p 2) \<and>
             (\<forall>n. bit (m_parerr s) n \<longrightarrow> bit p n)"
proof -
  from parity_r_loop [OF assms, of "[0, 1, 2, 3]" mem_mask False] obtain p where
    p: "for_each [0, 1, 2, 3] (parity_r_byte offset mem_mask) (s, False) =
          Inr (s\<lparr>m_parerr := p\<rparr>, \<exists>b\<in>set [0, 1, 2, 3]. lane_bad offset mem_mask bm b)"
      "\<forall>b\<in>set [0, 1, 2, 3]. lane_bad offset mem_mask bm b \<longrightarrow> bit p (7 - b) \<and> bit p 2"
      "\<forall>n. bit (m_parerr s) n \<longrightarrow> bit p n"
      "(\<forall>b\<in>set [0, 1, 2, 3]. \<not> lane_bad offset mem_mask bm b) \<longrightarrow> p = m_parerr s"
    by auto
  have set4: "\<And>P. (\<exists>b<4. P b) \<longleftrightarrow> (\<exists>b\<in>set [0, 1, 2, 3::nat]. P b)"
    by (auto simp add: less_Suc_eq numeral_eq_Suc)
  have all4: "\<And>P. (\<forall>b<4. P b) \<longleftrightarrow> (\<forall>b\<in>set [0, 1, 2, 3::nat]. P b)"
    by (auto simp add: less_Suc_eq numeral_eq_Suc)
  show ?thesis
    apply (rule exI [of _ p])
    unfolding set4 all4 parity_r_def upt_0_4 p(1)
    using p(2,3,4) by simp
qed

text \<open>
  C7. With parity checking enabled (and the bitmap allocated, the address in the tapped
  range), a read runs \<open>parity_r\<close> without fault; for every lane enabled by the mask
  whose shadow bit is set, the lane's error flag (bit 7 - byte of \<open>m_parerr\<close>) and the
  CPU-source flag (bit 2) are set, the address is latched in \<open>m_erradr\<close> and the bus
  error is raised on the CPU, once; when the mask covers no bad lane the state is
  unchanged: no flag, no latch, no bus error.
\<close>

theorem parity_r_check:
  assumes "m_cpucfg s AND CPUCFG_RPAR \<noteq> 0" and "m_parity s = Some bm" and "tap_range offset"
  shows "\<exists>s'. parity_r offset data mem_mask s = Inr s' \<and>
           (\<forall>byte<4. lane_bad offset mem_mask bm byte \<longrightarrow>
              bit (m_parerr s') (7 - byte) \<and> bit (m_parerr s') 2 \<and>
              m_erradr s' = offset \<and> m_cpu s' = m_cpu s @ [Berr_w True]) \<and>
           ((\<forall>byte<4. \<not> lane_bad offset mem_mask bm byte) \<longrightarrow> s' = s)"
proof -
  from parity_r_result [OF assms(2) parity_index_tap_range [OF assms(3)], of data mem_mask]
  obtain p where
    p: "parity_r offset data mem_mask s =
          Inr (if m_cpucfg s AND CPUCFG_RPAR \<noteq> 0 \<and> (\<exists>b<4. lane_bad offset mem_mask bm b)
               then s\<lparr>m_parerr := p, m_erradr := offset, m_cpu := m_cpu s @ [Berr_w True]\<rparr>
               else s)"
      "\<forall>b<4. lane_bad offset mem_mask bm b \<longrightarrow> bit p (7 - b) \<and> bit p 2"
    by blast
  show ?thesis
    unfolding p(1) using p(2) assms(1) by auto
qed

theorem parity_r_check_witness:
  "m_cpucfg checked AND CPUCFG_RPAR \<noteq> 0 \<and>
   m_parity checked = Some ((\<lambda>i. 0)(2 := 0x20)) \<and> tap_range 0x14 \<and>
   lane_bad 0x14 0x00ff0000 ((\<lambda>i. 0)(2 := 0x20)) 1 \<and>
   (\<exists>s'. parity_r 0x14 0 0x00ff0000 checked = Inr s' \<and> bit (m_parerr s') 6 \<and> bit (m_parerr s') 2 \<and>
      m_erradr s' = 0x14 \<and> m_cpu s' = [Berr_w True]) \<and>
   parity_r 0x14 0 0xff00ffff checked = Inr checked"
proof -
  have h1: "m_cpucfg checked AND CPUCFG_RPAR \<noteq> 0"
    and h2: "m_parity checked = Some ((\<lambda>i. 0)(2 := 0x20))"
    and c: "m_cpu checked = []"
    by (simp_all add: checked_def power_on_def machine_reset_def machine_start_def constructed_def)
  have h3: "tap_range 0x14"
    by (simp add: tap_range_def ram_size_def)
  have bad: "lane_bad 0x14 0x00ff0000 ((\<lambda>i. 0)(2 := 0x20)) 1"
    by (simp add: lane_bad_def lane_enabled_def parity_index_def parity_bit_def drop_bit_eq_div)
  have good: "\<forall>byte<4. \<not> lane_bad 0x14 0xff00ffff ((\<lambda>i. 0)(2 := 0x20)) byte"
    by (simp add: all_less_4 lane_bad_def lane_enabled_def parity_index_def parity_bit_def drop_bit_eq_div)
  from parity_r_check [OF h1 h2 h3, of 0 "0x00ff0000"] bad c
  have a: "\<exists>s'. parity_r 0x14 0 0x00ff0000 checked = Inr s' \<and> bit (m_parerr s') 6 \<and> bit (m_parerr s') 2 \<and>
      m_erradr s' = 0x14 \<and> m_cpu s' = [Berr_w True]"
    by (auto simp add: all_less_4)
  from parity_r_check [OF h1 h2 h3, of 0 "0xff00ffff"] good
  have b: "parity_r 0x14 0 0xff00ffff checked = Inr checked"
    by auto
  show ?thesis using h1 h2 h3 bad a b by blast
qed

subsection \<open>The population of the bitmap and the maintain path\<close>

lemma finite_bad_set: "finite (bad_set bm)"
proof (rule finite_subset)
  show "bad_set bm \<subseteq> {..<parity_size} \<times> {..<8}"
    by (auto simp add: bad_set_def)
  show "finite ({..<parity_size} \<times> {..<8::nat})"
    by simp
qed

lemma bad_bits_le: "bad_bits bm \<le> 8388608"
proof -
  have "card (bad_set bm) \<le> card ({..<parity_size} \<times> {..<8::nat})"
    by (rule card_mono) (auto simp add: bad_set_def)
  then show ?thesis
    by (simp add: bad_bits_def parity_size_eq)
qed

lemma bad_bits_zero: "bad_bits (\<lambda>i. 0) = 0"
  by (simp add: bad_bits_def bad_set_def)

lemma bit_set_u8:
  "k < 8 \<Longrightarrow> bit (or_assign_u8 x (push_bit k 1)) n \<longleftrightarrow> bit x n \<or> n = k"
  by (auto simp add: or_assign_u8_eq bit_simps dest: bit_imp_le_length)

lemma bit_clear_u8:
  "k < 8 \<Longrightarrow> bit (and_assign_u8 x (NOT (push_bit k 1))) n \<longleftrightarrow> bit x n \<and> n \<noteq> k"
  by (auto simp add: and_assign_u8_eq bit_simps dest: bit_imp_le_length)

lemma bad_set_set_bit:
  assumes "i < parity_size" and "k < 8"
  shows "bad_set (bm(i := or_assign_u8 (bm i) (push_bit k 1))) = insert (i, k) (bad_set bm)"
  using assms unfolding bad_set_def
  by (auto simp add: bit_set_u8 simp del: push_bit_of_1 split: if_splits)

lemma bad_set_clear_bit:
  assumes "i < parity_size" and "k < 8"
  shows "bad_set (bm(i := and_assign_u8 (bm i) (NOT (push_bit k 1)))) = bad_set bm - {(i, k)}"
  using assms unfolding bad_set_def
  by (auto simp add: bit_clear_u8 simp del: push_bit_of_1 split: if_splits)

lemma bad_bits_set_bit:
  assumes "i < parity_size" and "k < 8" and "\<not> bit (bm i) k"
  shows "bad_bits (bm(i := or_assign_u8 (bm i) (push_bit k 1))) = Suc (bad_bits bm)"
proof -
  have "(i, k) \<notin> bad_set bm"
    using assms(3) by (simp add: bad_set_def)
  then show ?thesis
    unfolding bad_bits_def bad_set_set_bit [OF assms(1,2)]
    by (simp add: finite_bad_set)
qed

lemma bad_bits_clear_bit:
  assumes "i < parity_size" and "k < 8" and "bit (bm i) k"
  shows "Suc (bad_bits (bm(i := and_assign_u8 (bm i) (NOT (push_bit k 1))))) = bad_bits bm"
proof -
  have "(i, k) \<in> bad_set bm"
    using assms by (simp add: bad_set_def)
  then show ?thesis
    unfolding bad_bits_def bad_set_clear_bit [OF assms(1,2)]
    by (rule card_Suc_Diff1 [OF finite_bad_set])
qed


lemma parity_bit_less: "byte < 4 \<Longrightarrow> parity_bit offset byte < 8"
  by (simp add: parity_bit_def)

lemma unat_inc_bad:
  fixes c :: u32
  assumes "unat c = bad_bits bm"
  shows "unat (c + 1) = Suc (bad_bits bm)"
proof -
  have "unat c < 4294967295"
    using bad_bits_le [of bm] assms by simp
  then show ?thesis
    using assms by (simp add: unat_word_ariths)
qed

lemma unat_dec_bad:
  fixes c :: u32
  assumes "unat c = Suc n"
  shows "unat (c - 1) = n"
proof -
  have "c \<noteq> 0"
    using assms by auto
  then show ?thesis
    using assms by (simp add: unat_minus_one)
qed

lemma for_each_total:
  assumes "P x" and "\<And>i y. i \<in> set is \<Longrightarrow> P y \<Longrightarrow> \<exists>z. body i y = Inr z \<and> P z"
  shows "\<exists>z. for_each is body x = Inr z \<and> P z"
  using assms
proof (induction "is" arbitrary: x)
  case Nil
  then show ?case by simp
next
  case (Cons i "is")
  from Cons.prems obtain y where y: "body i x = Inr y" "P y"
    by fastforce
  from Cons.IH [OF y(2)] Cons.prems(2) obtain z where "for_each is body y = Inr z" "P z"
    by fastforce
  with y show ?case by simp
qed

lemma parity_w_set_Some:
  assumes "m_parity s = Some bm" and "parity_index offset < parity_size" and "byte < 4"
  shows "\<exists>bm' c. parity_w_set offset mem_mask byte s =
                  Inr (s\<lparr>m_parity := Some bm', m_parity_bad := c\<rparr>) \<and>
                (unat (m_parity_bad s) = bad_bits bm \<longrightarrow> unat c = bad_bits bm')"
proof (cases "lane_enabled mem_mask byte \<and> \<not> bit (bm (parity_index offset)) (parity_bit offset byte)")
  case True
  let ?bm = "bm(parity_index offset :=
               or_assign_u8 (bm (parity_index offset)) (push_bit (parity_bit offset byte) 1))"
  have "parity_w_set offset mem_mask byte s =
          Inr (s\<lparr>m_parity := Some ?bm, m_parity_bad := m_parity_bad s + 1\<rparr>)"
    using True assms(1,2)
    by (simp add: parity_w_set_def parity_load_Some parity_store_Some del: push_bit_of_1)
  moreover have "unat (m_parity_bad s) = bad_bits bm \<longrightarrow> unat (m_parity_bad s + 1) = bad_bits ?bm"
    using True bad_bits_set_bit [OF assms(2) parity_bit_less [OF assms(3)], of bm offset]
    by (simp add: unat_inc_bad del: push_bit_of_1)
  ultimately show ?thesis by blast
next
  case False
  have "parity_w_set offset mem_mask byte s =
          Inr (s\<lparr>m_parity := Some bm, m_parity_bad := m_parity_bad s\<rparr>)"
    using False assms(1,2)
    by (auto simp add: parity_w_set_def parity_load_Some)
  then show ?thesis by blast
qed

lemma parity_w_clr_Some:
  assumes "m_parity s = Some bm" and "parity_index offset < parity_size" and "byte < 4"
  shows "\<exists>bm' c. parity_w_clr offset mem_mask byte s =
                  Inr (s\<lparr>m_parity := Some bm', m_parity_bad := c\<rparr>) \<and>
                (unat (m_parity_bad s) = bad_bits bm \<longrightarrow> unat c = bad_bits bm')"
proof (cases "lane_enabled mem_mask byte \<and> bit (bm (parity_index offset)) (parity_bit offset byte)")
  case True
  let ?bm = "bm(parity_index offset :=
               and_assign_u8 (bm (parity_index offset)) (NOT (push_bit (parity_bit offset byte) 1)))"
  have "parity_w_clr offset mem_mask byte s =
          Inr (s\<lparr>m_parity := Some ?bm, m_parity_bad := m_parity_bad s - 1\<rparr>)"
    using True assms(1,2)
    by (simp add: parity_w_clr_def parity_load_Some parity_store_Some del: push_bit_of_1)
  moreover have "unat (m_parity_bad s) = bad_bits bm \<longrightarrow> unat (m_parity_bad s - 1) = bad_bits ?bm"
    using True bad_bits_clear_bit [OF assms(2) parity_bit_less [OF assms(3)], of bm offset]
      unat_dec_bad [of "m_parity_bad s" "bad_bits ?bm"]
    by (simp del: push_bit_of_1)
  ultimately show ?thesis by blast
next
  case False
  have "parity_w_clr offset mem_mask byte s =
          Inr (s\<lparr>m_parity := Some bm, m_parity_bad := m_parity_bad s\<rparr>)"
    using False assms(1,2)
    by (auto simp add: parity_w_clr_def parity_load_Some)
  then show ?thesis by blast
qed


lemma parity_w_loop:
  assumes "m_parity s = Some bm" and "parity_index offset < parity_size"
    and "\<forall>b\<in>set bs. b < 4"
    and "body = parity_w_set offset mem_mask \<or> body = parity_w_clr offset mem_mask"
  shows "\<exists>bm' c. for_each bs body s = Inr (s\<lparr>m_parity := Some bm', m_parity_bad := c\<rparr>) \<and>
                (unat (m_parity_bad s) = bad_bits bm \<longrightarrow> unat c = bad_bits bm')"
proof -
  let ?P = "\<lambda>y. \<exists>bm' c. y = s\<lparr>m_parity := Some bm', m_parity_bad := c\<rparr> \<and>
                   (unat (m_parity_bad s) = bad_bits bm \<longrightarrow> unat c = bad_bits bm')"
  have init: "?P s"
    using assms(1) by (intro exI [of _ bm] exI [of _ "m_parity_bad s"]) simp
  have step: "\<exists>z. body b y = Inr z \<and> ?P z" if b: "b \<in> set bs" and y: "?P y" for b y
  proof -
    from y obtain bm1 c1 where y1: "y = s\<lparr>m_parity := Some bm1, m_parity_bad := c1\<rparr>"
      and c1: "unat (m_parity_bad s) = bad_bits bm \<longrightarrow> unat c1 = bad_bits bm1"
      by blast
    have py: "m_parity y = Some bm1" and cy: "m_parity_bad y = c1"
      using y1 by simp_all
    have b4: "b < 4" using assms(3) b by simp
    from parity_w_set_Some [OF py assms(2) b4, of mem_mask]
      parity_w_clr_Some [OF py assms(2) b4, of mem_mask] assms(4)
    obtain bm2 c2 where z: "body b y = Inr (y\<lparr>m_parity := Some bm2, m_parity_bad := c2\<rparr>)"
      and c2: "unat (m_parity_bad y) = bad_bits bm1 \<longrightarrow> unat c2 = bad_bits bm2"
      by blast
    have "y\<lparr>m_parity := Some bm2, m_parity_bad := c2\<rparr> = s\<lparr>m_parity := Some bm2, m_parity_bad := c2\<rparr>"
      using y1 by simp
    with z c1 c2 cy show ?thesis by auto
  qed
  from for_each_total [of ?P s bs body, OF init step] show ?thesis
    by blast
qed

lemma parity_w_result:
  assumes "m_parity s = Some bm" and "parity_index offset < parity_size"
  shows "\<exists>bm' c. parity_w offset data mem_mask s =
                  Inr (if m_cpucfg s AND CPUCFG_BAD = 0 \<and> c = 0
                       then s\<lparr>m_parity := None, m_parity_mph := False, m_parity_bad := c\<rparr>
                       else s\<lparr>m_parity := Some bm', m_parity_bad := c\<rparr>) \<and>
                (unat (m_parity_bad s) = bad_bits bm \<longrightarrow> unat c = bad_bits bm')"
proof (cases "m_cpucfg s AND CPUCFG_BAD = 0")
  case False
  from parity_w_loop [OF assms, of "[0, 1, 2, 3]" "parity_w_set offset mem_mask" mem_mask]
  obtain bm' c where
    "for_each [0, 1, 2, 3] (parity_w_set offset mem_mask) s =
       Inr (s\<lparr>m_parity := Some bm', m_parity_bad := c\<rparr>)"
    "unat (m_parity_bad s) = bad_bits bm \<longrightarrow> unat c = bad_bits bm'"
    by auto
  with False show ?thesis
    by (auto simp add: parity_w_def upt_0_4)
next
  case True
  from parity_w_loop [OF assms, of "[0, 1, 2, 3]" "parity_w_clr offset mem_mask" mem_mask]
  obtain bm' c where l:
    "for_each [0, 1, 2, 3] (parity_w_clr offset mem_mask) s =
       Inr (s\<lparr>m_parity := Some bm', m_parity_bad := c\<rparr>)"
    "unat (m_parity_bad s) = bad_bits bm \<longrightarrow> unat c = bad_bits bm'"
    by auto
  show ?thesis
    apply (rule exI [of _ bm'], rule exI [of _ c])
    using True l by (simp add: parity_w_def upt_0_4)
qed

subsection \<open>The tap\<close>

lemma tap_r_result:
  assumes "tap_ok s"
  shows "\<exists>p a c. tap_r offset data mem_mask s = Inr (s\<lparr>m_parerr := p, m_erradr := a, m_cpu := c\<rparr>) \<and>
           (\<forall>n. bit (m_parerr s) n \<longrightarrow> bit p n)"
proof (cases "m_parity_mph s \<and> tap_range offset")
  case False
  then have "tap_r offset data mem_mask s =
               Inr (s\<lparr>m_parerr := m_parerr s, m_erradr := m_erradr s, m_cpu := m_cpu s\<rparr>)"
    by (auto simp add: tap_r_def)
  then show ?thesis by blast
next
  case True
  with assms obtain bm where bm: "m_parity s = Some bm"
    by (auto simp add: tap_ok_def)
  from parity_r_result [OF bm parity_index_tap_range, of offset data mem_mask] True
  obtain p where p: "parity_r offset data mem_mask s =
      Inr (if m_cpucfg s AND CPUCFG_RPAR \<noteq> 0 \<and> (\<exists>b<4. lane_bad offset mem_mask bm b)
           then s\<lparr>m_parerr := p, m_erradr := offset, m_cpu := m_cpu s @ [Berr_w True]\<rparr>
           else s)"
    and mono: "\<forall>n. bit (m_parerr s) n \<longrightarrow> bit p n"
    by blast
  show ?thesis
  proof (cases "m_cpucfg s AND CPUCFG_RPAR \<noteq> 0 \<and> (\<exists>b<4. lane_bad offset mem_mask bm b)")
    case True
    with p mono \<open>m_parity_mph s \<and> tap_range offset\<close> show ?thesis
      by (auto simp add: tap_r_def)
  next
    case False
    with p \<open>m_parity_mph s \<and> tap_range offset\<close>
    have "tap_r offset data mem_mask s =
               Inr (s\<lparr>m_parerr := m_parerr s, m_erradr := m_erradr s, m_cpu := m_cpu s\<rparr>)"
      by (simp add: tap_r_def)
    then show ?thesis by blast
  qed
qed

lemma tap_w_result:
  assumes "tap_ok s"
  shows "\<exists>pa c. tap_w offset data mem_mask s =
                 Inr (s\<lparr>m_parity := pa, m_parity_mph := (pa \<noteq> None), m_parity_bad := c\<rparr>) \<and>
               (counter_ok s \<longrightarrow>
                  counter_ok (s\<lparr>m_parity := pa, m_parity_mph := (pa \<noteq> None), m_parity_bad := c\<rparr>)) \<and>
               (pa = None \<longleftrightarrow>
                  m_parity s = None \<or> tap_range offset \<and> m_cpucfg s AND CPUCFG_BAD = 0 \<and> c = 0) \<and>
               (m_parity s = None \<longrightarrow> c = m_parity_bad s)"
proof (cases "m_parity_mph s \<and> tap_range offset")
  case False
  then have "tap_w offset data mem_mask s =
     Inr (s\<lparr>m_parity := m_parity s, m_parity_mph := (m_parity s \<noteq> None), m_parity_bad := m_parity_bad s\<rparr>)"
    using assms by (auto simp add: tap_w_def tap_ok_def)
  moreover have "m_parity s = None \<longleftrightarrow>
      m_parity s = None \<or> tap_range offset \<and> m_cpucfg s AND CPUCFG_BAD = 0 \<and> m_parity_bad s = 0"
    using False assms by (auto simp add: tap_ok_def)
  ultimately show ?thesis
    by (intro exI [of _ "m_parity s"] exI [of _ "m_parity_bad s"]) (simp add: counter_ok_def split: option.splits)
next
  case True
  with assms obtain bm where bm: "m_parity s = Some bm"
    by (auto simp add: tap_ok_def)
  from parity_w_result [OF bm parity_index_tap_range, of offset data mem_mask] True
  obtain bm' c where w: "parity_w offset data mem_mask s =
      Inr (if m_cpucfg s AND CPUCFG_BAD = 0 \<and> c = 0
           then s\<lparr>m_parity := None, m_parity_mph := False, m_parity_bad := c\<rparr>
           else s\<lparr>m_parity := Some bm', m_parity_bad := c\<rparr>)"
    and cnt: "unat (m_parity_bad s) = bad_bits bm \<longrightarrow> unat c = bad_bits bm'"
    by blast
  show ?thesis
  proof (cases "m_cpucfg s AND CPUCFG_BAD = 0 \<and> c = 0")
    case True
    show ?thesis
      apply (rule exI [of _ None], rule exI [of _ c])
      using True w \<open>m_parity_mph s \<and> tap_range offset\<close> bm
      by (simp add: tap_w_def counter_ok_def)
  next
    case False
    show ?thesis
      apply (rule exI [of _ "Some bm'"], rule exI [of _ c])
      using False w cnt \<open>m_parity_mph s \<and> tap_range offset\<close> bm
      by (auto simp add: tap_w_def counter_ok_def)
  qed
qed

subsection \<open>The DMA step\<close>

lemma scsi_drq_result:
  assumes "tap_ok s" and "state \<noteq> 0"
  shows "\<exists>s'. scsi_drq state dma_in mem_in s = Inr s' \<and> tap_ok s' \<and>
           (counter_ok s \<longrightarrow> counter_ok s') \<and>
           m_dmalo s' = (m_dmalo s + 1) AND 0x8fff \<and>
           m_dmahi s' = (if ((m_dmalo s + 1) AND 0x8fff) AND 0xfff = 0 then m_dmahi s + 1 else m_dmahi s) \<and>
           m_scsi s' = m_scsi s @ [if m_dmalo s AND 0x8000 \<noteq> 0 then Dma_r else Dma_w mem_in] \<and>
           space0 s' = space0 s @ [if m_dmalo s AND 0x8000 \<noteq> 0 then Write_byte (dma_addr s) dma_in
                                   else Read_byte (dma_addr s)] \<and>
           m_cpucfg s' = m_cpucfg s \<and>
           (\<forall>n. bit (m_parerr s) n \<longrightarrow> bit (m_parerr s') n) \<and>
           (m_parity s' = None \<longleftrightarrow>
              m_parity s = None \<or>
              m_dmalo s AND 0x8000 \<noteq> 0 \<and> tap_range (dma_addr s AND NOT 3) \<and>
              m_cpucfg s AND CPUCFG_BAD = 0 \<and> m_parity_bad s' = 0) \<and>
           (m_parity s = None \<longrightarrow> m_parity_bad s' = m_parity_bad s)"
proof (cases "m_dmalo s AND 0x8000 \<noteq> 0")
  case True
  define s1 where "s1 = s\<lparr>m_scsi := m_scsi s @ [Dma_r]\<rparr>\<lparr>space0 := space0 s @ [Write_byte (dma_addr s) dma_in]\<rparr>"
  have ok1: "tap_ok s1"
    using assms(1) by (simp add: tap_ok_def s1_def)
  from tap_w_result [OF ok1, of "dma_addr s AND NOT 3"
      "push_bit (byte_shift (dma_addr s)) (ucast dma_in)" "push_bit (byte_shift (dma_addr s)) 0xff"]
  obtain pa c where w: "tap_w (dma_addr s AND NOT 3) (push_bit (byte_shift (dma_addr s)) (ucast dma_in))
        (push_bit (byte_shift (dma_addr s)) 0xff) s1 =
        Inr (s1\<lparr>m_parity := pa, m_parity_mph := (pa \<noteq> None), m_parity_bad := c\<rparr>)"
    and cnt: "counter_ok s1 \<longrightarrow>
        counter_ok (s1\<lparr>m_parity := pa, m_parity_mph := (pa \<noteq> None), m_parity_bad := c\<rparr>)"
    and free: "pa = None \<longleftrightarrow> m_parity s1 = None \<or>
        tap_range (dma_addr s AND NOT 3) \<and> m_cpucfg s1 AND CPUCFG_BAD = 0 \<and> c = 0"
    and keep: "m_parity s1 = None \<longrightarrow> c = m_parity_bad s1"
    by (elim exE conjE) (rule that)
  have drq: "scsi_drq state dma_in mem_in s =
      Inr (s1\<lparr>m_parity := pa, m_parity_mph := (pa \<noteq> None), m_parity_bad := c,
             m_dmalo := (m_dmalo s + 1) AND 0x8fff,
             m_dmahi := (if ((m_dmalo s + 1) AND 0x8fff) AND 0xfff = 0 then m_dmahi s + 1 else m_dmahi s)\<rparr>)"
    using True assms(2) w
    by (simp add: scsi_drq_def space_write_byte_def Let_def s1_def)
  show ?thesis
    unfolding drq
    using True cnt free keep
    by (auto simp add: s1_def tap_ok_def counter_ok_def split: option.splits)
next
  case False
  define s1 where "s1 = s\<lparr>space0 := space0 s @ [Read_byte (dma_addr s)]\<rparr>"
  have ok1: "tap_ok s1"
    using assms(1) by (simp add: tap_ok_def s1_def)
  from tap_r_result [OF ok1, of "dma_addr s AND NOT 3"
      "push_bit (byte_shift (dma_addr s)) (ucast mem_in)" "push_bit (byte_shift (dma_addr s)) 0xff"]
  obtain p a c where r: "tap_r (dma_addr s AND NOT 3) (push_bit (byte_shift (dma_addr s)) (ucast mem_in))
        (push_bit (byte_shift (dma_addr s)) 0xff) s1 =
        Inr (s1\<lparr>m_parerr := p, m_erradr := a, m_cpu := c\<rparr>)"
    and mono: "\<forall>n. bit (m_parerr s1) n \<longrightarrow> bit p n"
    by blast
  have drq: "scsi_drq state dma_in mem_in s =
      Inr (s1\<lparr>m_parerr := p, m_erradr := a, m_cpu := c, m_scsi := m_scsi s @ [Dma_w mem_in],
             m_dmalo := (m_dmalo s + 1) AND 0x8fff,
             m_dmahi := (if ((m_dmalo s + 1) AND 0x8fff) AND 0xfff = 0 then m_dmahi s + 1 else m_dmahi s)\<rparr>)"
    using False assms(2) r
    by (simp add: scsi_drq_def space_read_byte_def Let_def s1_def)
  show ?thesis
    unfolding drq
    using False assms(1) mono
    by (auto simp add: s1_def tap_ok_def counter_ok_def split: option.splits)
qed

lemma dir_bit: "(x AND 0x8000 \<noteq> 0) = bit x 15" for x :: u16
  using and_exp_eq_0_iff_not_bit [of x 15] by simp

lemma bad_bit13: "(x AND CPUCFG_BAD \<noteq> 0) = bit x 13" for x :: u16
  using and_exp_eq_0_iff_not_bit [of x 13] by simp

lemma rpar_bit10: "(x AND CPUCFG_RPAR \<noteq> 0) = bit x 10" for x :: u16
  using and_exp_eq_0_iff_not_bit [of x 10] by simp

text \<open>
  C3. In every state where the tap is installed only with its bitmap (every reachable
  state is one), a byte transfer returns, the low register becomes (low + 1) AND 0x8FFF,
  and the high register is incremented by one (in 16 bits) exactly when the twelve low
  bits of the new low register are zero; starting from low = 0x0FFE and high = H, two
  transfers leave low = 0x0000 and high = H + 1.
\<close>

theorem scsi_drq_address:
  assumes "tap_ok s" and "state \<noteq> 0" and "state2 \<noteq> 0"
  shows "\<exists>s1. scsi_drq state dma_in mem_in s = Inr s1 \<and>
           m_dmalo s1 = (m_dmalo s + 1) AND 0x8fff \<and>
           m_dmahi s1 = (if m_dmalo s1 AND 0x0fff = 0 then m_dmahi s + 1 else m_dmahi s) \<and>
           (m_dmalo s = 0x0ffe \<longrightarrow>
              (\<exists>s2. scsi_drq state2 dma_in2 mem_in2 s1 = Inr s2 \<and>
                    m_dmalo s2 = 0x0000 \<and> m_dmahi s2 = m_dmahi s + 1))"
proof -
  from scsi_drq_result [OF assms(1,2), of dma_in mem_in] obtain s1 where
    s1: "scsi_drq state dma_in mem_in s = Inr s1" "tap_ok s1"
      "m_dmalo s1 = (m_dmalo s + 1) AND 0x8fff"
      "m_dmahi s1 = (if ((m_dmalo s + 1) AND 0x8fff) AND 0xfff = 0 then m_dmahi s + 1 else m_dmahi s)"
    by blast
  from scsi_drq_result [OF s1(2) assms(3), of dma_in2 mem_in2] obtain s2 where
    s2: "scsi_drq state2 dma_in2 mem_in2 s1 = Inr s2"
      "m_dmalo s2 = (m_dmalo s1 + 1) AND 0x8fff"
      "m_dmahi s2 = (if ((m_dmalo s1 + 1) AND 0x8fff) AND 0xfff = 0 then m_dmahi s1 + 1 else m_dmahi s1)"
    by blast
  have "m_dmalo s = 0x0ffe \<longrightarrow> m_dmalo s2 = 0x0000 \<and> m_dmahi s2 = m_dmahi s + 1"
    using s1(3,4) s2(2,3) by simp
  with s1 s2(1) show ?thesis by auto
qed

theorem scsi_drq_address_witness:
  "tap_ok (power_on\<lparr>m_dmalo := 0x0ffe, m_dmahi := 0x0123\<rparr>) \<and> (1::u32) \<noteq> 0 \<and>
   (\<exists>s1. scsi_drq 1 0 0x5a (power_on\<lparr>m_dmalo := 0x0ffe, m_dmahi := 0x0123\<rparr>) = Inr s1 \<and>
      m_dmalo s1 = 0x0fff \<and> m_dmahi s1 = 0x0123 \<and>
      (\<exists>s2. scsi_drq 1 0 0x5b s1 = Inr s2 \<and> m_dmalo s2 = 0 \<and> m_dmahi s2 = 0x0124))"
proof -
  have ok: "tap_ok (power_on\<lparr>m_dmalo := 0x0ffe, m_dmahi := 0x0123\<rparr>)"
    by (simp add: tap_ok_def power_on_def machine_reset_def machine_start_def constructed_def)
  have one: "(1::u32) \<noteq> 0" by simp
  from scsi_drq_address [OF ok one one, of 0 "0x5a" 0 "0x5b"] ok show ?thesis
    by auto
qed

text \<open>
  C4. Each call of the data-request callback with an active level makes exactly one
  byte transfer at the address (high << 12) | (low & 0x0FFF): when bit 15 of the low
  register is set, one \<open>dma_r\<close> on the controller and one \<open>write_byte\<close> of its byte
  \<open>dma_in\<close> at that address; otherwise one \<open>read_byte\<close> at that address and one
  \<open>dma_w\<close> of its byte \<open>mem_in\<close> on the controller.
\<close>

theorem scsi_drq_transfer:
  assumes "tap_ok s" and "state \<noteq> 0"
  shows "\<exists>s'. scsi_drq state dma_in mem_in s = Inr s' \<and>
           (if bit (m_dmalo s) 15
            then m_scsi s' = m_scsi s @ [Dma_r] \<and>
                 space0 s' = space0 s @
                   [Write_byte (push_bit 12 (ucast (m_dmahi s)) OR ucast (m_dmalo s AND 0x0fff)) dma_in]
            else space0 s' = space0 s @
                   [Read_byte (push_bit 12 (ucast (m_dmahi s)) OR ucast (m_dmalo s AND 0x0fff))] \<and>
                 m_scsi s' = m_scsi s @ [Dma_w mem_in])"
proof -
  from scsi_drq_result [OF assms, of dma_in mem_in] obtain s' where
    "scsi_drq state dma_in mem_in s = Inr s'"
    "m_scsi s' = m_scsi s @ [if m_dmalo s AND 0x8000 \<noteq> 0 then Dma_r else Dma_w mem_in]"
    "space0 s' = space0 s @ [if m_dmalo s AND 0x8000 \<noteq> 0 then Write_byte (dma_addr s) dma_in
                             else Read_byte (dma_addr s)]"
    by blast
  then show ?thesis
    by (auto simp add: dir_bit dma_addr_def)
qed


theorem scsi_drq_transfer_witness:
  "tap_ok (power_on\<lparr>m_dmalo := 0x8abc, m_dmahi := 0x0012\<rparr>) \<and> (1::u32) \<noteq> 0 \<and>
   bit (m_dmalo (power_on\<lparr>m_dmalo := 0x8abc, m_dmahi := 0x0012\<rparr>)) 15 \<and>
   (\<exists>s'. scsi_drq 1 0x77 0 (power_on\<lparr>m_dmalo := 0x8abc, m_dmahi := 0x0012\<rparr>) = Inr s' \<and>
      m_scsi s' = [Dma_r] \<and> space0 s' = [Write_byte 0x12abc 0x77]) \<and>
   tap_ok (power_on\<lparr>m_dmalo := 0x0abc, m_dmahi := 0x0012\<rparr>) \<and>
   \<not> bit (m_dmalo (power_on\<lparr>m_dmalo := 0x0abc, m_dmahi := 0x0012\<rparr>)) 15 \<and>
   (\<exists>s'. scsi_drq 1 0 0x66 (power_on\<lparr>m_dmalo := 0x0abc, m_dmahi := 0x0012\<rparr>) = Inr s' \<and>
      space0 s' = [Read_byte 0x12abc] \<and> m_scsi s' = [Dma_w 0x66])"
proof -
  have ok1: "tap_ok (power_on\<lparr>m_dmalo := 0x8abc, m_dmahi := 0x0012\<rparr>)"
    and ok2: "tap_ok (power_on\<lparr>m_dmalo := 0x0abc, m_dmahi := 0x0012\<rparr>)"
    by (simp_all add: tap_ok_def power_on_def machine_reset_def machine_start_def constructed_def)
  have logs: "m_scsi power_on = []" "space0 power_on = []"
    by (simp_all add: power_on_def machine_reset_def machine_start_def constructed_def)
  have one: "(1::u32) \<noteq> 0" by simp
  from scsi_drq_transfer [OF ok1 one, of "0x77" 0] scsi_drq_transfer [OF ok2 one, of 0 "0x66"]
    ok1 ok2 logs
  show ?thesis
    by simp
qed

subsection \<open>The lifecycle of the bitmap and of the tap\<close>

lemma cpucfg_w_parity:
  "m_parity (cpucfg_w data s) =
     (if \<not> bit (m_cpucfg s) 13 \<and> bit data 13 \<and> m_parity s = None then Some (\<lambda>i. 0) else m_parity s)"
  "m_parity_mph (cpucfg_w data s) =
     (if \<not> bit (m_cpucfg s) 13 \<and> bit data 13 \<and> m_parity s = None then True else m_parity_mph s)"
  "m_parity_bad (cpucfg_w data s) = m_parity_bad s"
  "m_parerr (cpucfg_w data s) = m_parerr s"
  "m_cpucfg (cpucfg_w data s) = data"
  by (auto simp add: cpucfg_w_def Let_def bad_bit13 bit_xor_iff)

lemma handler_frame:
  "m_parity (lio_interrupt number state s) = m_parity s"
  "m_parity_mph (lio_interrupt number state s) = m_parity_mph s"
  "m_parity_bad (lio_interrupt number state s) = m_parity_bad s"
  "m_cpucfg (lio_interrupt number state s) = m_cpucfg s"
  "m_parerr (lio_interrupt number state s) = m_parerr s"
  "m_parity (pit_out0 state s) = m_parity s"
  "m_parity_mph (pit_out0 state s) = m_parity_mph s"
  "m_parity_bad (pit_out0 state s) = m_parity_bad s"
  "m_cpucfg (pit_out0 state s) = m_cpucfg s"
  "m_parerr (pit_out0 state s) = m_parerr s"
  "m_parity (pit_out1 state s) = m_parity s"
  "m_parity_mph (pit_out1 state s) = m_parity_mph s"
  "m_parity_bad (pit_out1 state s) = m_parity_bad s"
  "m_cpucfg (pit_out1 state s) = m_cpucfg s"
  "m_parerr (pit_out1 state s) = m_parerr s"
  "m_parity (dmalo_w data16 s) = m_parity s"
  "m_parity_mph (dmalo_w data16 s) = m_parity_mph s"
  "m_parity_bad (dmalo_w data16 s) = m_parity_bad s"
  "m_cpucfg (dmalo_w data16 s) = m_cpucfg s"
  "m_parerr (dmalo_w data16 s) = m_parerr s"
  "m_parity (dmahi_w data16 s) = m_parity s"
  "m_parity_mph (dmahi_w data16 s) = m_parity_mph s"
  "m_parity_bad (dmahi_w data16 s) = m_parity_bad s"
  "m_cpucfg (dmahi_w data16 s) = m_cpucfg s"
  "m_parerr (dmahi_w data16 s) = m_parerr s"
  "m_parity (snd (irq4_clear_r s)) = m_parity s"
  "m_parity_mph (snd (irq4_clear_r s)) = m_parity_mph s"
  "m_parity_bad (snd (irq4_clear_r s)) = m_parity_bad s"
  "m_cpucfg (snd (irq4_clear_r s)) = m_cpucfg s"
  "m_parerr (snd (irq4_clear_r s)) = m_parerr s"
  "m_parity (snd (irq2_clear_r s)) = m_parity s"
  "m_parity_mph (snd (irq2_clear_r s)) = m_parity_mph s"
  "m_parity_bad (snd (irq2_clear_r s)) = m_parity_bad s"
  "m_cpucfg (snd (irq2_clear_r s)) = m_cpucfg s"
  "m_parerr (snd (irq2_clear_r s)) = m_parerr s"
  "m_parity (snd (scsi_reset_r level s)) = m_parity s"
  "m_parity_mph (snd (scsi_reset_r level s)) = m_parity_mph s"
  "m_parity_bad (snd (scsi_reset_r level s)) = m_parity_bad s"
  "m_cpucfg (snd (scsi_reset_r level s)) = m_cpucfg s"
  "m_parerr (snd (scsi_reset_r level s)) = m_parerr s"
  "m_parity (snd (parerr_clear_r offs s)) = m_parity s"
  "m_parity_mph (snd (parerr_clear_r offs s)) = m_parity_mph s"
  "m_parity_bad (snd (parerr_clear_r offs s)) = m_parity_bad s"
  "m_cpucfg (snd (parerr_clear_r offs s)) = m_cpucfg s"
  "m_parity (parerr_clear_w offs data8 s) = m_parity s"
  "m_parity_mph (parerr_clear_w offs data8 s) = m_parity_mph s"
  "m_parity_bad (parerr_clear_w offs data8 s) = m_parity_bad s"
  "m_cpucfg (parerr_clear_w offs data8 s) = m_cpucfg s"
  "m_parity (machine_reset s) = m_parity s"
  "m_parity_mph (machine_reset s) = m_parity_mph s"
  "m_parity_bad (machine_reset s) = m_parity_bad s"
  "m_cpucfg (machine_reset s) = m_cpucfg s"
  by (simp_all add: lio_interrupt_def Let_def pit_out0_def pit_out1_def dmalo_w_def dmahi_w_def
      irq4_clear_r_def irq2_clear_r_def scsi_reset_r_def parerr_clear_r_def parerr_clear_w_def
      machine_reset_def)

lemma step_result:
  assumes "tap_ok s"
  shows "\<exists>s'. step c s = Inr s' \<and> tap_ok s' \<and> (counter_ok s \<longrightarrow> counter_ok s')"
proof (cases c)
  case (Cpucfg_w data)
  then show ?thesis
    using assms
    by (auto simp add: tap_ok_def counter_ok_def cpucfg_w_parity bad_bits_zero split: option.splits)
next
  case (Ram_r offset data mem_mask)
  from tap_r_result [OF assms, of offset data mem_mask] obtain p a cc where
    "tap_r offset data mem_mask s = Inr (s\<lparr>m_parerr := p, m_erradr := a, m_cpu := cc\<rparr>)"
    by blast
  with Ram_r assms show ?thesis
    by (auto simp add: tap_ok_def counter_ok_def split: option.splits)
next
  case (Ram_w offset data mem_mask)
  from tap_w_result [OF assms, of offset data mem_mask] obtain pa cc where
    "tap_w offset data mem_mask s =
       Inr (s\<lparr>m_parity := pa, m_parity_mph := (pa \<noteq> None), m_parity_bad := cc\<rparr>)"
    "counter_ok s \<longrightarrow>
       counter_ok (s\<lparr>m_parity := pa, m_parity_mph := (pa \<noteq> None), m_parity_bad := cc\<rparr>)"
    by blast
  with Ram_w show ?thesis
    by (auto simp add: tap_ok_def)
next
  case (Scsi_drq state dma_in mem_in)
  show ?thesis
  proof (cases "state = 0")
    case True
    with Scsi_drq assms show ?thesis
      by (simp add: scsi_drq_def)
  next
    case False
    from scsi_drq_result [OF assms False, of dma_in mem_in] Scsi_drq show ?thesis
      by auto
  qed
qed (use assms in \<open>auto simp add: tap_ok_def counter_ok_def handler_frame
      split: option.splits\<close>)

lemma reachable_ok:
  assumes "reachable s"
  shows "tap_ok s \<and> counter_ok s"
  using assms
proof (induction rule: reachable.induct)
  case (reachable_start s0)
  then show ?case
    by (simp add: tap_ok_def counter_ok_def machine_reset_def machine_start_def)
next
  case (reachable_step s c s')
  with step_result [of s c] show ?case
    by auto
qed


lemma step_lifecycle:
  assumes "tap_ok s" and "step c s = Inr s'"
  shows "(m_parity s = None \<and> m_parity s' \<noteq> None) =
           (\<exists>data. c = Cpucfg_w data \<and> \<not> bit (m_cpucfg s) 13 \<and> bit data 13 \<and> m_parity s = None)"
    and "(m_parity s \<noteq> None \<and> m_parity s' = None) =
           (m_parity s \<noteq> None \<and> maintain_write c s \<and> \<not> bit (m_cpucfg s) 13 \<and> m_parity_bad s' = 0)"
proof -
  have "(m_parity s = None \<and> m_parity s' \<noteq> None) =
           (\<exists>data. c = Cpucfg_w data \<and> \<not> bit (m_cpucfg s) 13 \<and> bit data 13 \<and> m_parity s = None) \<and>
        (m_parity s \<noteq> None \<and> m_parity s' = None) =
           (m_parity s \<noteq> None \<and> maintain_write c s \<and> \<not> bit (m_cpucfg s) 13 \<and> m_parity_bad s' = 0)"
  proof (cases c)
    case (Cpucfg_w data)
    with assms(2) show ?thesis
      by (auto simp add: cpucfg_w_parity split: if_splits)
  next
    case (Ram_r offset data mem_mask)
    from tap_r_result [OF assms(1), of offset data mem_mask] obtain p a cc where
      "tap_r offset data mem_mask s = Inr (s\<lparr>m_parerr := p, m_erradr := a, m_cpu := cc\<rparr>)"
      by blast
    with Ram_r assms(2) show ?thesis
      by auto
  next
    case (Ram_w offset data mem_mask)
    from tap_w_result [OF assms(1), of offset data mem_mask] obtain pa cc where
      "tap_w offset data mem_mask s =
         Inr (s\<lparr>m_parity := pa, m_parity_mph := (pa \<noteq> None), m_parity_bad := cc\<rparr>)"
      "pa = None \<longleftrightarrow>
         m_parity s = None \<or> tap_range offset \<and> m_cpucfg s AND CPUCFG_BAD = 0 \<and> cc = 0"
      by blast
    with Ram_w assms show ?thesis
      using bad_bit13 [of "m_cpucfg s"]
      by (auto simp add: tap_ok_def)
  next
    case (Scsi_drq state dma_in mem_in)
    show ?thesis
    proof (cases "state = 0")
      case True
      with Scsi_drq assms(2) show ?thesis
        by (auto simp add: scsi_drq_def)
    next
      case False
      from scsi_drq_result [OF assms(1) False, of dma_in mem_in] Scsi_drq assms False
      show ?thesis
        using bad_bit13 [of "m_cpucfg s"]
        by (auto simp add: tap_ok_def)
    qed
  qed (use assms(2) in \<open>auto simp add: handler_frame\<close>)
  then show "(m_parity s = None \<and> m_parity s' \<noteq> None) =
           (\<exists>data. c = Cpucfg_w data \<and> \<not> bit (m_cpucfg s) 13 \<and> bit data 13 \<and> m_parity s = None)"
    and "(m_parity s \<noteq> None \<and> m_parity s' = None) =
           (m_parity s \<noteq> None \<and> maintain_write c s \<and> \<not> bit (m_cpucfg s) 13 \<and> m_parity_bad s' = 0)"
    by blast+
qed

lemma power_on_eq:
  "power_on = \<lparr>m_cpucfg = 0, m_dmalo = 0, m_dmahi = 0, m_lio_isr = 0xff, m_parerr = 0,
     m_erradr = 0, m_parity = None, m_parity_mph = False, m_parity_bad = 0,
     m_lio_int = False, m_leds = [], m_cpu = [], m_scsi = [], space0 = [],
     soft_resets = 0\<rparr>"
  by (simp add: power_on_def machine_reset_def machine_start_def constructed_def)

lemma reachable_power_on: "reachable power_on"
  unfolding power_on_def
  by (rule reachable_start) (simp_all add: constructed_def)

lemma reachable_enabled: "reachable (cpucfg_w 0x2000 power_on)"
  by (rule reachable_step [OF reachable_power_on, of "Cpucfg_w 0x2000"]) simp_all

lemma step_inject: "step (Ram_w 0x14 0 0x00ff0000) (cpucfg_w 0x2000 power_on) = Inr injected"
  by (simp add: injected_def tap_w_def tap_range_def ram_size_def parity_w_def upt_0_4
      parity_w_set_def lane_enabled_def parity_load_def parity_store_def parity_index_def
      parity_bit_def parity_size_eq or_assign_u8_eq cpucfg_w_def Let_def power_on_eq
      drop_bit_eq_div)

lemma reachable_injected: "reachable injected"
  by (rule reachable_step [OF reachable_enabled _ step_inject]) simp

lemma reachable_healing: "reachable healing"
  unfolding healing_def
  by (rule reachable_step [OF reachable_injected, of "Cpucfg_w 0"]) simp_all

lemma step_heal:
  "step (Ram_w 0x14 0 0x00ff0000) healing =
     Inr (healing\<lparr>m_parity := None, m_parity_mph := False, m_parity_bad := 0\<rparr>)"
  by (simp add: healing_def injected_def tap_w_def tap_range_def ram_size_def parity_w_def upt_0_4
      parity_w_clr_def lane_enabled_def parity_load_def parity_store_def parity_index_def
      parity_bit_def parity_size_eq and_assign_u8_eq cpucfg_w_def Let_def power_on_eq
      drop_bit_eq_div)

text \<open>
  C5. In every reachable state the tap is installed exactly when the bitmap is
  allocated, and over any call: the bitmap is allocated (and the tap installed) exactly
  by a write of the Configuration Register that takes the bad-parity bit (bit 13) from 0
  to 1 while there is no bitmap; the bitmap is freed (and the tap removed) exactly by a
  call that runs the maintain path with injection disabled and leaves the counter
  \<open>m_parity_bad\<close> at zero. No other call allocates or frees; clearing bit 13 alone
  does not free. A write of the Configuration Register that finds a bitmap, whatever it
  does to bit 13, allocates and installs nothing: the bitmap, the tap and the counter are
  as before; and a bitmap just allocated is all zero, the counter unchanged.
\<close>

theorem parity_lifecycle:
  assumes "reachable s" and "step c s = Inr s'"
  shows "m_parity_mph s = (m_parity s \<noteq> None) \<and> m_parity_mph s' = (m_parity s' \<noteq> None) \<and>
         (m_parity s = None \<and> m_parity s' \<noteq> None) =
           (\<exists>data. c = Cpucfg_w data \<and> \<not> bit (m_cpucfg s) 13 \<and> bit data 13 \<and> m_parity s = None) \<and>
         (m_parity s \<noteq> None \<and> m_parity s' = None) =
           (m_parity s \<noteq> None \<and> maintain_write c s \<and> \<not> bit (m_cpucfg s) 13 \<and> m_parity_bad s' = 0) \<and>
         (\<forall>data. c = Cpucfg_w data \<and> m_parity s \<noteq> None \<longrightarrow>
            m_parity s' = m_parity s \<and> m_parity_mph s' = m_parity_mph s \<and>
            m_parity_bad s' = m_parity_bad s) \<and>
         (m_parity s = None \<and> m_parity s' \<noteq> None \<longrightarrow>
            m_parity s' = Some (\<lambda>i. 0) \<and> m_parity_bad s' = m_parity_bad s)"
proof -
  have ok: "tap_ok s"
    using reachable_ok [OF assms(1)] by simp
  from step_result [OF ok, of c] assms(2) have ok': "tap_ok s'"
    by auto
  have keep: "m_parity s' = m_parity s \<and> m_parity_mph s' = m_parity_mph s \<and>
      m_parity_bad s' = m_parity_bad s"
    if "c = Cpucfg_w data \<and> m_parity s \<noteq> None" for data
    using that assms(2) by (auto simp add: cpucfg_w_parity)
  have fresh: "m_parity s' = Some (\<lambda>i. 0) \<and> m_parity_bad s' = m_parity_bad s"
    if new: "m_parity s = None \<and> m_parity s' \<noteq> None"
  proof -
    from new step_lifecycle(1) [OF ok assms(2)] obtain data where
      "c = Cpucfg_w data" "\<not> bit (m_cpucfg s) 13" "bit data 13" "m_parity s = None"
      by blast
    with assms(2) show ?thesis
      by (auto simp add: cpucfg_w_parity)
  qed
  from ok ok' step_lifecycle [OF ok assms(2)] keep fresh show ?thesis
    unfolding tap_ok_def by blast
qed

text \<open>
  C6. In every reachable state the counter \<open>m_parity_bad\<close> equals the number of bits set
  in the parity bitmap: it is zero while there is no bitmap (a new bitmap is all zero), and
  every call, the maintain path among them, keeps the equality.
\<close>

theorem bad_counter_matches_bitmap:
  assumes "reachable s"
  shows "case m_parity s of
           None \<Rightarrow> m_parity_bad s = 0
         | Some bm \<Rightarrow> unat (m_parity_bad s) = bad_bits bm"
  using reachable_ok [OF assms] by (simp add: counter_ok_def)

text \<open>
  C9. In every reachable state the tap is installed exactly when the bitmap is allocated,
  so that no call has undefined behaviour: whenever the tap is installed and the address
  is in the tapped range, the bitmap is not null and \<open>parity_r\<close> and \<open>parity_w\<close> return
  without a null dereference or an index out of the bitmap.
\<close>

theorem parity_handlers_allocated:
  assumes "reachable s"
  shows "m_parity_mph s = (m_parity s \<noteq> None) \<and>
         (\<forall>c. \<exists>s'. step c s = Inr s') \<and>
         (m_parity_mph s \<and> tap_range offset \<longrightarrow>
            m_parity s \<noteq> None \<and>
            (\<exists>s'. parity_r offset data mem_mask s = Inr s') \<and>
            (\<exists>s'. parity_w offset data mem_mask s = Inr s'))"
proof -
  have ok: "tap_ok s"
    using reachable_ok [OF assms] by simp
  have "\<exists>s'. step c s = Inr s'" for c
    using step_result [OF ok, of c] by blast
  moreover have "\<exists>s'. parity_r offset data mem_mask s = Inr s'"
    if "m_parity_mph s \<and> tap_range offset"
    using step_result [OF ok, of "Ram_r offset data mem_mask"] that by (auto simp add: tap_r_def)
  moreover have "\<exists>s'. parity_w offset data mem_mask s = Inr s'"
    if "m_parity_mph s \<and> tap_range offset"
    using step_result [OF ok, of "Ram_w offset data mem_mask"] that by (auto simp add: tap_w_def)
  ultimately show ?thesis
    using ok by (auto simp add: tap_ok_def)
qed

theorem parity_lifecycle_witness:
  "reachable power_on \<and> step (Cpucfg_w 0x2000) power_on = Inr (cpucfg_w 0x2000 power_on) \<and>
   m_parity power_on = None \<and> m_parity (cpucfg_w 0x2000 power_on) = Some (\<lambda>i. 0) \<and>
   m_parity_mph (cpucfg_w 0x2000 power_on) \<and>
   reachable healing \<and>
   step (Ram_w 0x14 0 0x00ff0000) healing =
     Inr (healing\<lparr>m_parity := None, m_parity_mph := False, m_parity_bad := 0\<rparr>) \<and>
   m_parity healing \<noteq> None \<and> m_parity_mph healing \<and>
   maintain_write (Ram_w 0x14 0 0x00ff0000) healing \<and> \<not> bit (m_cpucfg healing) 13 \<and>
   step (Cpucfg_w 0x2000) healing = Inr (cpucfg_w 0x2000 healing) \<and>
   m_parity (cpucfg_w 0x2000 healing) = Some ((\<lambda>i. 0)(2 := 0x20)) \<and>
   m_parity_mph (cpucfg_w 0x2000 healing) \<and> m_parity_bad (cpucfg_w 0x2000 healing) = 1"
proof -
  have s1: "step (Cpucfg_w 0x2000) power_on = Inr (cpucfg_w 0x2000 power_on)"
    by simp
  have s2: "step (Cpucfg_w 0x2000) healing = Inr (cpucfg_w 0x2000 healing)"
    by simp
  have p0: "m_parity power_on = None" "\<not> bit (m_cpucfg power_on) 13"
    by (simp_all add: power_on_eq)
  have b: "bit (0x2000 :: u16) 13"
    by simp
  have h: "m_parity healing = Some ((\<lambda>i. 0)(2 := 0x20))" "m_parity_bad healing = 1"
    by (simp_all add: healing_def injected_def cpucfg_w_parity)
  from parity_lifecycle [OF reachable_power_on s1] p0 b
  have a: "m_parity (cpucfg_w 0x2000 power_on) = Some (\<lambda>i. 0) \<and>
      m_parity_mph (cpucfg_w 0x2000 power_on)"
    by simp
  from parity_lifecycle [OF reachable_healing step_heal] h
  have f: "m_parity_mph healing \<and> maintain_write (Ram_w 0x14 0 0x00ff0000) healing \<and>
      \<not> bit (m_cpucfg healing) 13"
    by simp
  from parity_lifecycle [OF reachable_healing s2] h
  have k: "m_parity (cpucfg_w 0x2000 healing) = Some ((\<lambda>i. 0)(2 := 0x20)) \<and>
      m_parity_mph (cpucfg_w 0x2000 healing) \<and> m_parity_bad (cpucfg_w 0x2000 healing) = 1"
    by simp
  from a f k s1 s2 p0 h reachable_power_on reachable_healing step_heal show ?thesis
    by simp
qed

theorem bad_counter_matches_bitmap_witness:
  "reachable injected \<and> m_parity injected = Some ((\<lambda>i. 0)(2 := 0x20)) \<and>
   m_parity_bad injected = 1 \<and> bad_bits ((\<lambda>i. 0)(2 := 0x20)) = 1"
proof -
  have "m_parity injected = Some ((\<lambda>i. 0)(2 := 0x20))" "m_parity_bad injected = 1"
    by (simp_all add: injected_def)
  with bad_counter_matches_bitmap [OF reachable_injected] reachable_injected show ?thesis
    by simp
qed

theorem parity_handlers_allocated_witness:
  "reachable injected \<and> m_parity_mph injected \<and> tap_range 0x14 \<and> m_parity injected \<noteq> None \<and>
   (\<exists>s'. parity_r 0x14 0 0x00ff0000 injected = Inr s') \<and>
   (\<exists>s'. parity_w 0x14 0 0x00ff0000 injected = Inr s') \<and>
   (\<exists>s'. step (Scsi_drq 1 0x5a 0) injected = Inr s')"
proof -
  have mph: "m_parity_mph injected"
    by (simp add: injected_def cpucfg_w_parity power_on_eq)
  have r: "tap_range 0x14"
    by (simp add: tap_range_def ram_size_def)
  from parity_handlers_allocated [OF reachable_injected, of "0x14" 0 "0x00ff0000"] mph r
    reachable_injected
  show ?thesis
    by blast
qed

subsection \<open>The parity error flags\<close>

lemma bit_u8_cases:
  fixes x :: u8
  assumes "bit x n"
  shows "n \<in> {0, 1, 2, 3, 4, 5, 6, 7}"
proof -
  have "n < 8" using bit_imp_le_length [OF assms] by simp
  then show ?thesis by auto
qed

lemma parerr_clear_mask:
  "(ucast (NOT (PAR_ALL OR push_bit 0 1)) :: u8) = 0x0e"
  "(ucast (NOT (PAR_ALL OR push_bit 1 1)) :: u8) = 0x0d"
  "(ucast (NOT (PAR_ALL OR push_bit 2 1)) :: u8) = 0x0b"
  "(ucast (NOT (PAR_ALL OR push_bit 3 1)) :: u8) = 0x07"
  by (simp_all add: word_eq_iff_unsigned [where ?'a = nat] unsigned_ucast_eq)

lemma parerr_clear_eq:
  "and_assign_u8 x (NOT (PAR_ALL OR push_bit 0 1)) = x AND 0x0e"
  "and_assign_u8 x (NOT (PAR_ALL OR push_bit 1 1)) = x AND 0x0d"
  "and_assign_u8 x (NOT (PAR_ALL OR push_bit 2 1)) = x AND 0x0b"
  "and_assign_u8 x (NOT (PAR_ALL OR push_bit 3 1)) = x AND 0x07"
  unfolding and_assign_u8_eq parerr_clear_mask by (rule refl)+

lemma bit_parerr_clear:
  assumes "k < 4"
  shows "bit (and_assign_u8 x (NOT (PAR_ALL OR push_bit k 1))) n \<longleftrightarrow> bit x n \<and> n < 4 \<and> n \<noteq> k"
proof (cases "bit x n")
  case False
  then show ?thesis
    by (simp add: and_assign_u8_eq bit_and_iff)
next
  case True
  have k: "k = 0 \<or> k = 1 \<or> k = 2 \<or> k = 3"
    using assms by arith
  have n: "n \<in> {0, 1, 2, 3, 4, 5, 6, 7}"
    by (rule bit_u8_cases [OF True])
  from k show ?thesis
  proof (elim disjE)
    assume "k = 0"
    with n True show ?thesis
      unfolding \<open>k = 0\<close> parerr_clear_eq by (elim insertE emptyE) (simp_all add: bit_and_iff)
  next
    assume "k = 1"
    with n True show ?thesis
      unfolding \<open>k = 1\<close> parerr_clear_eq by (elim insertE emptyE) (simp_all add: bit_and_iff)
  next
    assume "k = 2"
    with n True show ?thesis
      unfolding \<open>k = 2\<close> parerr_clear_eq by (elim insertE emptyE) (simp_all add: bit_and_iff)
  next
    assume "k = 3"
    with n True show ?thesis
      unfolding \<open>k = 3\<close> parerr_clear_eq by (elim insertE emptyE) (simp_all add: bit_and_iff)
  qed
qed

lemma parerr_r_eq: "parerr_r s = m_parerr s XOR 0xf0"
proof -
  have "(ucast PAR_ALL :: u8) = 0xf0"
    by simp
  moreover have "(ucast (ucast (m_parerr s) :: u32) :: u8) = m_parerr s"
    by (rule bit_word_eqI) (simp add: bit_simps)
  ultimately show ?thesis
    unfolding parerr_r_def by (simp add: unsigned_xor_eq)
qed

lemma step_parerr_mono:
  assumes "tap_ok s" and "step c s = Inr s'" and "\<not> clears_parerr c" and "bit (m_parerr s) n"
  shows "bit (m_parerr s') n"
proof (cases c)
  case (Cpucfg_w data)
  with assms show ?thesis
    by (auto simp add: cpucfg_w_parity)
next
  case (Ram_r offset data mem_mask)
  from tap_r_result [OF assms(1), of offset data mem_mask] Ram_r assms show ?thesis
    by auto
next
  case (Ram_w offset data mem_mask)
  from tap_w_result [OF assms(1), of offset data mem_mask] Ram_w assms show ?thesis
    by auto
next
  case (Scsi_drq state dma_in mem_in)
  show ?thesis
  proof (cases "state = 0")
    case True
    with Scsi_drq assms show ?thesis
      by (auto simp add: scsi_drq_def)
  next
    case False
    from scsi_drq_result [OF assms(1) False, of dma_in mem_in] Scsi_drq assms show ?thesis
      by auto
  qed
qed (use assms in \<open>auto simp add: handler_frame\<close>)

lemma step_fault: "step (Ram_r 0x14 0 0x00ff0000) (cpucfg_w 0x2400 injected) = Inr faulted"
  by (simp add: faulted_def injected_def tap_r_def tap_range_def ram_size_def parity_r_def upt_0_4
      parity_r_byte_def lane_enabled_def parity_load_def parity_index_def
      parity_bit_def parity_size_eq or_assign_u8_eq cpucfg_w_def Let_def power_on_eq
      drop_bit_eq_div)

lemma reachable_faulted: "reachable faulted"
proof -
  have "reachable (cpucfg_w 0x2400 injected)"
    by (rule reachable_step [OF reachable_injected, of "Cpucfg_w 0x2400"]) simp_all
  from reachable_step [OF this _ step_fault] show ?thesis
    by simp
qed

text \<open>
  C8 (as amended). A parity error flag that is set stays set over every call other than
  an access, read or write, of the acknowledge window and the reset of the machine; an
  access of the acknowledge window at byte offset k (0 to 3), read or write, clears the
  four byte-lane flags and the source flag k and leaves the other source flags, the read
  returning 0; the read of the parity status register returns \<open>m_parerr\<close> XOR 0xF0
  (the byte-lane flags inverted, the source flags as they are) and changes nothing.
\<close>

theorem parerr_flags_sticky:
  assumes "reachable s" and "step c s = Inr s'"
  shows "(\<not> clears_parerr c \<longrightarrow> bit (m_parerr s) n \<longrightarrow> bit (m_parerr s') n) \<and>
         (k < 4 \<longrightarrow>
            fst (parerr_clear_r k s) = 0 \<and>
            bit (m_parerr (snd (parerr_clear_r k s))) n = (bit (m_parerr s) n \<and> n < 4 \<and> n \<noteq> k) \<and>
            bit (m_parerr (parerr_clear_w k d s)) n = (bit (m_parerr s) n \<and> n < 4 \<and> n \<noteq> k)) \<and>
         parerr_r s = m_parerr s XOR 0xf0 \<and> step Parerr_r s = Inr s"
proof -
  have ok: "tap_ok s"
    using reachable_ok [OF assms(1)] by simp
  have "\<not> clears_parerr c \<longrightarrow> bit (m_parerr s) n \<longrightarrow> bit (m_parerr s') n"
    using step_parerr_mono [OF ok assms(2)] by blast
  moreover have "k < 4 \<longrightarrow>
      bit (m_parerr (snd (parerr_clear_r k s))) n = (bit (m_parerr s) n \<and> n < 4 \<and> n \<noteq> k) \<and>
      bit (m_parerr (parerr_clear_w k d s)) n = (bit (m_parerr s) n \<and> n < 4 \<and> n \<noteq> k)"
    using bit_parerr_clear [of k "m_parerr s" n]
    by (simp add: parerr_clear_r_def parerr_clear_w_def del: push_bit_of_1)
  ultimately show ?thesis
    by (simp add: parerr_r_eq parerr_clear_r_def)
qed

text \<open>
  The claim as first stated fails on the machine \<open>faulted\<close>: a read of the acknowledge
  window clears the flags, so does the reset of the machine, and the status read returns
  0xB4 where the inverted flags would be 0xBB.
\<close>

theorem parerr_flags_sticky_counterexample:
  "m_parerr faulted = 0x44 \<and>
   step (Parerr_clear_r 2) faulted = Inr (faulted\<lparr>m_parerr := 0\<rparr>) \<and>
   fst (parerr_clear_r 2 faulted) = 0 \<and>
   step Machine_reset faulted = Inr (faulted\<lparr>m_erradr := 0, m_parerr := 0\<rparr>) \<and>
   parerr_r faulted = 0xb4 \<and> NOT (m_parerr faulted) = 0xbb"
proof -
  have "parerr_clear_r 2 faulted = (0, faulted\<lparr>m_parerr := m_parerr faulted AND 0x0b\<rparr>)"
    unfolding parerr_clear_r_def parerr_clear_eq by (rule refl)
  then show ?thesis
    by (simp add: faulted_def machine_reset_def parerr_r_eq)
qed

theorem parerr_flags_sticky_witness:
  "reachable faulted \<and> step (Dmalo_w 0x1234) faulted = Inr (dmalo_w 0x1234 faulted) \<and>
   \<not> clears_parerr (Dmalo_w 0x1234) \<and> bit (m_parerr faulted) 6 \<and> (2::nat) < 4 \<and>
   bit (m_parerr (dmalo_w 0x1234 faulted)) 6 \<and>
   \<not> bit (m_parerr (snd (parerr_clear_r 2 faulted))) 6 \<and>
   \<not> bit (m_parerr (parerr_clear_w 2 0 faulted)) 2 \<and>
   parerr_r faulted = 0xb4"
proof -
  have st: "step (Dmalo_w 0x1234) faulted = Inr (dmalo_w 0x1234 faulted)"
    by simp
  have f: "m_parerr faulted = 0x44"
    by (simp add: faulted_def)
  have b: "bit (m_parerr faulted) 6"
    unfolding f by simp
  from parerr_flags_sticky [OF reachable_faulted st, of 6 2 0]
    parerr_flags_sticky [OF reachable_faulted st, of 2 2 0] b reachable_faulted st
  show ?thesis
    by (simp add: f)
qed

end
